theory Spec2Isabelle
  imports Main "HOL-Library.List_Lexorder" "HOL-Library.Char_ord"
begin

section \<open>Python values, errors and the environment\<close>

text \<open>
  The model follows \<^verbatim>\<open>src/ppcg_qc_from_sanger/extract_qc.py\<close> and
  \<^verbatim>\<open>command_line.py\<close>. Paths, option strings and column names are ASCII strings. The
  names that the pairing pattern classifies (archive member names, and the sample names
  compared with them) are Python strings in full: lists of code points. An exception is a value of
  \<open>error\<close>; a function that may raise returns \<open>error + 'a\<close> with \<open>Inl\<close> the exception.
  All \<^verbatim>\<open>RuntimeError\<close>s of the source are told apart by their message:
  \<^item> \<open>GenomeSizeNotInt\<close>: \<^verbatim>\<open>'genome_size is not int'\<close>;
  \<^item> \<open>OutputNotWritable\<close>: \<^verbatim>\<open>'output is not writable: ...'\<close>;
  \<^item> \<open>OutputExists\<close>: \<^verbatim>\<open>'existing output file: ...'\<close>;
  \<^item> \<open>MissingTumourBas\<close>, \<open>MissingNormalBas\<close>: \<^verbatim>\<open>'Missing BAS files for ... samples: ...'\<close>;
  \<^item> \<open>InvalidArchive\<close>: \<^verbatim>\<open>'Not a valid Sanger Variant Call result archive: ...'\<close>;
  \<^item> \<open>FinalOutputFailed\<close>: \<^verbatim>\<open>'failed to create the final output: ...'\<close>.
  The other constructors are exceptions of the interpreter, of the standard library and of
  the collaborators that are not part of these two files.
\<close>

type_synonym path = string

text \<open>
  \<open>pystr\<close>: a Python \<^verbatim>\<open>str\<close> as the list of its code points; \<open>ustr\<close> gives the \<^verbatim>\<open>str\<close> of
  an ASCII literal.
\<close>

type_synonym pystr = "nat list"

definition ustr :: "string \<Rightarrow> pystr" where
  "ustr s = map of_char s"

type_synonym pairkey = "pystr \<times> pystr"

datatype pyval =
    PyNone
  | PyBool bool
  | PyInt int
  | PyStr string
  | PyList "string list"
  | PyFunc string

datatype error =
    AttributeError string
  | UnboundLocalError string
  | TypeError string
  | KeyError pystr
  | SystemExit int
  | FileNotFoundError path
  | OSError path
  | GenomeSizeNotInt
  | OutputNotWritable path
  | OutputExists path
  | MissingTumourBas "pystr list"
  | MissingNormalBas "pystr list"
  | InvalidArchive path
  | FinalOutputFailed
  | NotFound path
  | InvalidBas path
  | InvalidTarName path
  | TarReadError path
  | BasParseError path
  | ExtractorError pairkey
  | NotModelled string

text \<open>
  An \<^verbatim>\<open>argparse.Namespace\<close> is a list of attribute names with their values; reading
  an attribute that was never set raises \<^verbatim>\<open>AttributeError\<close>.
\<close>

type_synonym namespace = "(string \<times> pyval) list"

definition getattr_ns :: "namespace \<Rightarrow> string \<Rightarrow> error + pyval" where
  "getattr_ns ns a = (case map_of ns a of None \<Rightarrow> Inl (AttributeError a) | Some v \<Rightarrow> Inr v)"

fun truthy :: "pyval \<Rightarrow> bool" where
  "truthy PyNone = False"
| "truthy (PyBool b) = b"
| "truthy (PyInt n) = (n \<noteq> 0)"
| "truthy (PyStr s) = (s \<noteq> [])"
| "truthy (PyList xs) = (xs \<noteq> [])"
| "truthy (PyFunc f) = True"

text \<open>\<^verbatim>\<open>isinstance(v, int)\<close>: \<^verbatim>\<open>bool\<close> is a subclass of \<^verbatim>\<open>int\<close>.\<close>

fun isinstance_int :: "pyval \<Rightarrow> bool" where
  "isinstance_int (PyInt n) = True"
| "isinstance_int (PyBool b) = True"
| "isinstance_int v = False"

text \<open>
  \<^verbatim>\<open>for path in v\<close>: a list gives its elements, a string its characters one by one,
  anything else of \<open>pyval\<close> is not iterable.
\<close>

fun iterate :: "pyval \<Rightarrow> error + string list" where
  "iterate (PyList xs) = Inr xs"
| "iterate (PyStr s) = Inr (map (\<lambda>c. [c]) s)"
| "iterate v = Inl (TypeError ''object is not iterable'')"

text \<open>
  A Python \<^verbatim>\<open>dict\<close> keeps insertion order, and assigning to a key that is already there
  replaces the value in place.
\<close>

fun dict_set :: "('k \<times> 'v) list \<Rightarrow> 'k \<Rightarrow> 'v \<Rightarrow> ('k \<times> 'v) list" where
  "dict_set [] k v = [(k, v)]"
| "dict_set ((k', v') # d) k v =
     (if k' = k then (k, v) # d else (k', v') # dict_set d k v)"

definition dict_get :: "(pystr \<times> 'v) list \<Rightarrow> pystr \<Rightarrow> error + 'v" where
  "dict_get d k = (case map_of d k of None \<Rightarrow> Inl (KeyError k) | Some v \<Rightarrow> Inr v)"

fun py_join :: "'a list \<Rightarrow> 'a list list \<Rightarrow> 'a list" where
  "py_join sep [] = []"
| "py_join sep [x] = x"
| "py_join sep (x # y # zs) = x @ sep @ py_join sep (y # zs)"

definition tab :: string where
  "tab = [CHR 0x09]"

definition newline :: char where
  "newline = CHR 0x0A"

definition line_break :: nat where
  "line_break = 10"

text \<open>
  The environment of a run: the file system as the operating system answers for a path
  string (a relative name is resolved against the working directory), and the
  collaborators whose code is not in the two files: \<^verbatim>\<open>get_abs_path\<close>,
  \<^verbatim>\<open>SangerQcMetricsExtractor.validate_tar_name\<close>, \<^verbatim>\<open>validate_bas\<close>,
  \<^verbatim>\<open>get_sample_name_from_bas(get_bas_content(bas))\<close> (\<open>None\<close>: it raises), the member
  names of a \<^verbatim>\<open>tar.gz\<close> archive in archive order (\<open>None\<close>: it cannot be opened), the
  extractor (\<open>None\<close>: it raises; otherwise the metrics and the genotyping files), and
  whether the final archive can be written. \<open>fs_open_w\<close> is what opening the output path
  for writing and writing the placeholder does, \<open>fs_remove\<close> what \<^verbatim>\<open>os.remove\<close> of the output
  path does when the pre-flight calls it (\<open>None\<close>: the path is removed; otherwise the
  exception it raises). \<open>unicode_alnum\<close> is the interpreter's Unicode table: which code
  points beyond ASCII are letters or digits for \<^verbatim>\<open>\w\<close>.
\<close>

datatype fkind = RegularFile | Directory

datatype write_outcome = OpenFails | WriteFails | WriteOk

record world =
  fs_kind :: "path \<Rightarrow> fkind option"
  fs_listdir :: "path \<Rightarrow> string list option"
  fs_open_w :: "path \<Rightarrow> write_outcome"
  fs_remove :: "path \<Rightarrow> error option"
  abs_path :: "path \<Rightarrow> path"
  tar_name_ok :: "path \<Rightarrow> bool"
  bas_ok :: "path \<Rightarrow> bool"
  bas_sample :: "path \<Rightarrow> pystr option"
  tar_members :: "path \<Rightarrow> pystr list option"
  unicode_alnum :: "nat \<Rightarrow> bool"
  sanger_extractor ::
    "path \<Rightarrow> path \<Rightarrow> pyval \<Rightarrow> path \<Rightarrow> pyval \<Rightarrow> pyval \<Rightarrow> (string list \<times> path list) option"
  tar_write_ok :: "path \<Rightarrow> bool"

definition path_exists :: "world \<Rightarrow> path \<Rightarrow> bool" where
  "path_exists w p = (fs_kind w p \<noteq> None)"

definition isdir :: "world \<Rightarrow> path \<Rightarrow> bool" where
  "isdir w p = (fs_kind w p = Some Directory)"

text \<open>
  Modelled from the spec: \<^verbatim>\<open>check_file_exists\<close> of the package's \<^verbatim>\<open>__init__\<close> is not
  among the source files; the spec says a path that does not exist fails with
  \<^verbatim>\<open>NotFoundError\<close>.
\<close>

definition check_file_exists :: "world \<Rightarrow> path \<Rightarrow> error + unit" where
  "check_file_exists w p = (if path_exists w p then Inr () else Inl (NotFound p))"

section \<open>The name patterns\<close>

text \<open>
  \<^verbatim>\<open>$\<close> matches at the end of the string and also just before a line break that ends
  the string; \<^verbatim>\<open>.\<close> matches every character but the line break. \<^verbatim>\<open>re.match\<close> anchors
  the pattern at the start.

  \<^verbatim>\<open>\w\<close> in a \<^verbatim>\<open>str\<close> pattern compiled without \<^verbatim>\<open>re.ASCII\<close>: the underscore and every
  code point that is alphanumeric. For the ASCII code points these are the letters and
  the digits; for the others the Unicode table of the interpreter decides, which is the
  parameter \<open>alnum\<close>.
\<close>

definition ascii_alnum :: "nat \<Rightarrow> bool" where
  "ascii_alnum k = ((97 \<le> k \<and> k \<le> 122) \<or> (65 \<le> k \<and> k \<le> 90) \<or> (48 \<le> k \<and> k \<le> 57))"

definition is_word_char :: "(nat \<Rightarrow> bool) \<Rightarrow> nat \<Rightarrow> bool" where
  "is_word_char alnum k = (k = 95 \<or> (if k < 128 then ascii_alnum k else alnum k))"

definition is_name_char :: "(nat \<Rightarrow> bool) \<Rightarrow> nat \<Rightarrow> bool" where
  "is_name_char alnum k = (is_word_char alnum k \<or> k = 45)"

definition at_end :: "pystr \<Rightarrow> bool" where
  "at_end s = (s = [] \<or> s = [line_break])"

definition strip_final_newline :: "string \<Rightarrow> string" where
  "strip_final_newline s = (if s \<noteq> [] \<and> last s = newline then butlast s else s)"

text \<open>
  \<^verbatim>\<open>re.match(r'^WGS_([\w\-]+)_vs_([\w\-]+)$', name)\<close>. The second group is greedy and
  must reach \<^verbatim>\<open>$\<close>. The first group is greedy too: the matcher tries its longest run
  first and gives characters back one by one until \<^verbatim>\<open>_vs_\<close> and the second group
  follow.
\<close>

definition match_group2 :: "(nat \<Rightarrow> bool) \<Rightarrow> pystr \<Rightarrow> pystr option" where
  "match_group2 alnum s =
     (let n = takeWhile (is_name_char alnum) s
      in if n \<noteq> [] \<and> at_end (dropWhile (is_name_char alnum) s) then Some n else None)"

fun try_split :: "(nat \<Rightarrow> bool) \<Rightarrow> nat \<Rightarrow> pystr \<Rightarrow> pairkey option" where
  "try_split alnum 0 r = None"
| "try_split alnum (Suc k) r =
     (if take 4 (drop (Suc k) r) = ustr ''_vs_'' then
        (case match_group2 alnum (drop (Suc k + 4) r) of
           Some n \<Rightarrow> Some (take (Suc k) r, n)
         | None \<Rightarrow> try_split alnum k r)
      else try_split alnum k r)"

definition wgs_match :: "(nat \<Rightarrow> bool) \<Rightarrow> pystr \<Rightarrow> pairkey option" where
  "wgs_match alnum name =
     (if take 4 name = ustr ''WGS_'' then
        (let r = drop 4 name in try_split alnum (length (takeWhile (is_name_char alnum) r)) r)
      else None)"

text \<open>\<^verbatim>\<open>re.match(r'.+\.bam\.bas$', a_file)\<close>\<close>

definition bas_name_match :: "string \<Rightarrow> bool" where
  "bas_name_match s =
     (let b = strip_final_newline s
      in newline \<notin> set b \<and> 8 < length b \<and> drop (length b - 8) b = ''.bam.bas'')"

text \<open>\<^verbatim>\<open>re.match(r'\.tar.gz$', a_file)\<close>: the second dot of the pattern is not escaped.\<close>

definition tar_name_match :: "string \<Rightarrow> bool" where
  "tar_name_match s =
     (let b = strip_final_newline s
      in length b = 7 \<and> take 4 b = ''.tar'' \<and> b ! 4 \<noteq> newline \<and> drop 5 b = ''gz'')"

text \<open>\<^verbatim>\<open>re.match(r'.+\.tsv$', a_file)\<close>\<close>

definition tsv_name_match :: "string \<Rightarrow> bool" where
  "tsv_name_match s =
     (let b = strip_final_newline s
      in newline \<notin> set b \<and> 4 < length b \<and> drop (length b - 4) b = ''.tsv'')"

section \<open>Locating the input files\<close>

text \<open>
  \<^verbatim>\<open>get_all_bas\<close>. For a directory, the inner loop tests \<^verbatim>\<open>os.path.isdir(a_file)\<close> and
  the pattern on the bare entry name, and validates and resolves the bare name too.
\<close>

fun bas_of_entries :: "world \<Rightarrow> string list \<Rightarrow> error + path list" where
  "bas_of_entries w [] = Inr []"
| "bas_of_entries w (a_file # rest) =
     (if \<not> isdir w a_file \<and> bas_name_match a_file then
        (if bas_ok w a_file then
           (case bas_of_entries w rest of
              Inl e \<Rightarrow> Inl e
            | Inr found \<Rightarrow> Inr (abs_path w a_file # found))
         else Inl (InvalidBas a_file))
      else bas_of_entries w rest)"

definition bas_of_path :: "world \<Rightarrow> path \<Rightarrow> error + path list" where
  "bas_of_path w p =
     (case check_file_exists w p of
        Inl e \<Rightarrow> Inl e
      | Inr u \<Rightarrow>
          if isdir w p then
            (case fs_listdir w p of
               None \<Rightarrow> Inl (OSError p)
             | Some entries \<Rightarrow> bas_of_entries w entries)
          else if bas_ok w p then Inr [abs_path w p]
          else Inl (InvalidBas p))"

fun get_all_bas :: "world \<Rightarrow> path list \<Rightarrow> error + path list" where
  "get_all_bas w [] = Inr []"
| "get_all_bas w (p # ps) =
     (case bas_of_path w p of
        Inl e \<Rightarrow> Inl e
      | Inr found \<Rightarrow>
          (case get_all_bas w ps of
             Inl e \<Rightarrow> Inl e
           | Inr others \<Rightarrow> Inr (found @ others)))"

text \<open>\<^verbatim>\<open>get_all_variant_call_tar\<close>\<close>

definition tars_of_entries :: "world \<Rightarrow> string list \<Rightarrow> path list" where
  "tars_of_entries w entries =
     map (abs_path w) (filter (\<lambda>a_file. \<not> isdir w a_file \<and> tar_name_match a_file) entries)"

definition tars_of_path :: "world \<Rightarrow> path \<Rightarrow> error + path list" where
  "tars_of_path w p =
     (case check_file_exists w p of
        Inl e \<Rightarrow> Inl e
      | Inr u \<Rightarrow>
          if isdir w p then
            (case fs_listdir w p of
               None \<Rightarrow> Inl (OSError p)
             | Some entries \<Rightarrow> Inr (tars_of_entries w entries))
          else if tar_name_ok w p then Inr [abs_path w p]
          else Inl (InvalidTarName p))"

fun get_all_variant_call_tar :: "world \<Rightarrow> path list \<Rightarrow> error + path list" where
  "get_all_variant_call_tar w [] = Inr []"
| "get_all_variant_call_tar w (p # ps) =
     (case tars_of_path w p of
        Inl e \<Rightarrow> Inl e
      | Inr found \<Rightarrow>
          (case get_all_variant_call_tar w ps of
             Inl e \<Rightarrow> Inl e
           | Inr others \<Rightarrow> Inr (found @ others)))"

text \<open>\<^verbatim>\<open>get_all_meta\<close>\<close>

definition meta_of_path :: "world \<Rightarrow> path \<Rightarrow> error + path list" where
  "meta_of_path w p =
     (case check_file_exists w p of
        Inl e \<Rightarrow> Inl e
      | Inr u \<Rightarrow>
          if isdir w p then
            (case fs_listdir w p of
               None \<Rightarrow> Inl (OSError p)
             | Some entries \<Rightarrow>
                 Inr (map (abs_path w)
                       (filter (\<lambda>a_file. \<not> isdir w a_file \<and> tsv_name_match a_file) entries)))
          else Inr [abs_path w p])"

fun get_all_meta :: "world \<Rightarrow> path list \<Rightarrow> error + path list" where
  "get_all_meta w [] = Inr []"
| "get_all_meta w (p # ps) =
     (case meta_of_path w p of
        Inl e \<Rightarrow> Inl e
      | Inr found \<Rightarrow>
          (case get_all_meta w ps of
             Inl e \<Rightarrow> Inl e
           | Inr others \<Rightarrow> Inr (found @ others)))"

section \<open>Archive identity and cohort reconciliation\<close>

text \<open>
  \<^verbatim>\<open>get_all_t_n_pairs\<close>: the scan of one archive stops at the first member that the
  pattern accepts.
\<close>

fun first_pair :: "(nat \<Rightarrow> bool) \<Rightarrow> pystr list \<Rightarrow> pairkey option" where
  "first_pair alnum [] = None"
| "first_pair alnum (m # ms) =
     (case wgs_match alnum m of Some k \<Rightarrow> Some k | None \<Rightarrow> first_pair alnum ms)"

definition pair_of_archive :: "world \<Rightarrow> path \<Rightarrow> error + pairkey" where
  "pair_of_archive w a_tar =
     (case tar_members w a_tar of
        None \<Rightarrow> Inl (TarReadError a_tar)
      | Some all_files \<Rightarrow>
          (case first_pair (unicode_alnum w) all_files of
             None \<Rightarrow> Inl (InvalidArchive a_tar)
           | Some (t_name, n_name) \<Rightarrow>
               if t_name = [] then Inl (InvalidArchive a_tar) else Inr (t_name, n_name)))"

fun t_n_pairs_from :: "world \<Rightarrow> (pairkey \<times> path) list \<Rightarrow> path list \<Rightarrow> error + (pairkey \<times> path) list" where
  "t_n_pairs_from w t_n_pair_tar [] = Inr t_n_pair_tar"
| "t_n_pairs_from w t_n_pair_tar (a_tar # rest) =
     (case pair_of_archive w a_tar of
        Inl e \<Rightarrow> Inl e
      | Inr k \<Rightarrow> t_n_pairs_from w (dict_set t_n_pair_tar k a_tar) rest)"

definition get_all_t_n_pairs :: "world \<Rightarrow> path list \<Rightarrow> error + (pairkey \<times> path) list" where
  "get_all_t_n_pairs w variant_call_tars = t_n_pairs_from w [] variant_call_tars"

text \<open>\<^verbatim>\<open>get_sample_names_bas_file_dict\<close>: a dict comprehension over the list.\<close>

fun sample_names_from :: "world \<Rightarrow> (pystr \<times> path) list \<Rightarrow> path list \<Rightarrow> error + (pystr \<times> path) list" where
  "sample_names_from w d [] = Inr d"
| "sample_names_from w d (bas # rest) =
     (case bas_sample w bas of
        None \<Rightarrow> Inl (BasParseError bas)
      | Some name \<Rightarrow> sample_names_from w (dict_set d name bas) rest)"

definition get_sample_names_bas_file_dict :: "world \<Rightarrow> path list \<Rightarrow> error + (pystr \<times> path) list" where
  "get_sample_names_bas_file_dict w bas_list = sample_names_from w [] bas_list"

text \<open>
  \<^verbatim>\<open>sorted(set(expected) - set(present))\<close>: strings are ordered code point by code point.
\<close>

definition sorted_missing :: "pystr list \<Rightarrow> pystr list \<Rightarrow> pystr list" where
  "sorted_missing expected present = sort (remdups (filter (\<lambda>x. x \<notin> set present) expected))"

definition get_validated_tn_pair_and_bas_lists ::
  "world \<Rightarrow> path list \<Rightarrow> path list \<Rightarrow> path list \<Rightarrow>
   error + ((pairkey \<times> path) list \<times> (pystr \<times> path) list \<times> (pystr \<times> path) list)" where
  "get_validated_tn_pair_and_bas_lists w tumour_bas normal_bas variant_call_tars =
     (case get_all_t_n_pairs w variant_call_tars of
        Inl e \<Rightarrow> Inl e
      | Inr t_n_pair_tar \<Rightarrow>
          (case get_sample_names_bas_file_dict w tumour_bas of
             Inl e \<Rightarrow> Inl e
           | Inr t_name_bas \<Rightarrow>
               (case get_sample_names_bas_file_dict w normal_bas of
                  Inl e \<Rightarrow> Inl e
                | Inr n_name_bas \<Rightarrow>
                    if sorted_missing (map (fst \<circ> fst) t_n_pair_tar) (map fst t_name_bas) \<noteq> []
                    then Inl (MissingTumourBas
                           (sorted_missing (map (fst \<circ> fst) t_n_pair_tar) (map fst t_name_bas)))
                    else if sorted_missing (map (snd \<circ> fst) t_n_pair_tar) (map fst n_name_bas) \<noteq> []
                    then Inl (MissingNormalBas
                           (sorted_missing (map (snd \<circ> fst) t_n_pair_tar) (map fst n_name_bas)))
                    else Inr (t_n_pair_tar, t_name_bas, n_name_bas))))"

text \<open>The message of a missing-sample error: the names joined by a comma and a blank.\<close>

fun error_message :: "error \<Rightarrow> pystr" where
  "error_message (MissingTumourBas not_found) =
     ustr ''Missing BAS files for tumour samples: '' @ py_join (ustr '', '') not_found"
| "error_message (MissingNormalBas not_found) =
     ustr ''Missing BAS files for normal samples: '' @ py_join (ustr '', '') not_found"
| "error_message e = []"

section \<open>The report schema\<close>

text \<open>
  The module-level list \<^verbatim>\<open>OUTPUT_HEADER\<close> as the module defines it, and
  \<^verbatim>\<open>VARIANT_COUNT_HEADER\<close>. The list object is shared by all calls in a process, so the
  run takes its current value and returns the value it leaves behind.
\<close>

definition OUTPUT_HEADER :: "string list" where
  "OUTPUT_HEADER =
     [''Tumour sample name'',
      ''Tumour ID'',
      ''Tumour UUID'',
      ''Tumour sequencing year'',
      ''Tumour sequencer'',
      ''Tumour ReadGroup IDs'',
      ''Tumour depth per RG'',
      ''Tumour total depth'',
      ''Tumour fraction of mapped reads per RG'',
      ''Tumour mean fraction of mapped reads'',
      ''Tumour insert size per RG'',
      ''Tumour mean Insert size'',
      ''Tumour insert size sd per RG'',
      ''Tumour mean insert size sd'',
      ''Tumour r1 GC content per RG'',
      ''Tumour mean r1 GC content'',
      ''Tumour r2 GC content per RG'',
      ''Tumour mean r2 GC content'',
      ''Tumour fraction of duplicated reads per RG'',
      ''Tumour mean fraction of duplicated reads'',
      ''Tumour fraction of mis-matched pairs per RG'',
      ''Tumour mean fraction of mis-matched pairs'',
      ''Tumour contamination per RG'',
      ''Tumour mean contamination'',
      ''Tumour sex'',
      ''Tumour fraction of matched sex with Normal'',
      ''Tumour fraction of matched genotype with Normal'',
      ''Normal contamination in Tumour'',
      ''Normal sample name'',
      ''Normal ID'',
      ''Normal UUID'',
      ''Normal sequencing year'',
      ''Normal sequencer'',
      ''Normal ReadGroup IDs'',
      ''Normal depth per RG'',
      ''Normal total depth'',
      ''Normal fraction of mapped reads per RG'',
      ''Normal mean fraction of mapped reads'',
      ''Normal insert size per RG'',
      ''Normal mean Insert size'',
      ''Normal insert size sd per RG'',
      ''Normal mean insert size sd'',
      ''Normal r1 GC content per RG'',
      ''Normal mean r1 GC content'',
      ''Normal r2 GC content per RG'',
      ''Normal mean r2 GC content'',
      ''Normal fraction of duplicated reads per RG'',
      ''Normal mean fraction of duplicated reads'',
      ''Normal fraction of mis-matched pairs per RG'',
      ''Normal mean fraction of mis-matched pairs'',
      ''Normal contamination per RG'',
      ''Normal mean contamination'',
      ''Donor ID'',
      ''Donor UUID'']"

definition VARIANT_COUNT_HEADER :: "string list" where
  "VARIANT_COUNT_HEADER =
     [''Number of SNVs (PASS/All)'', ''Number of INDELs (PASS/All)'',
      ''Number of SVs (PASS/All)'', ''Number of CNVs'']"

section \<open>The run\<close>

text \<open>
  What a call of \<^verbatim>\<open>extract_from_sanger\<close> leaves behind: how it ended, the module-level
  header list after the call, the file-system steps it took in order, the lines written
  to the report file (\<open>None\<close>: the file was never opened; every line is written with its
  line break), and the final archive (the report's lines and the genotyping files;
  \<open>None\<close>: it was not written).
\<close>

datatype step = OpenOutput path | RemoveOutput path | ReadInputs | OpenReport | PackOutput path

record run =
  outcome :: "error + unit"
  header_after :: "string list"
  steps :: "step list"
  report_lines :: "string list option"
  final_archive :: "(string list \<times> path list) option"

definition aborted :: "error \<Rightarrow> string list \<Rightarrow> step list \<Rightarrow> run" where
  "aborted e hdr sofar =
     \<lparr>outcome = Inl e, header_after = hdr, steps = sofar, report_lines = None, final_archive = None\<rparr>"

text \<open>
  Lines 122 to 133: the debug flag, the genome size, the output name. The path resolver
  \<^verbatim>\<open>get_abs_path\<close> is taken to raise \<^verbatim>\<open>TypeError\<close> for an output name that is not a
  string.
\<close>

definition check_args :: "world \<Rightarrow> namespace \<Rightarrow> error + (pyval \<times> path)" where
  "check_args w args =
     (case getattr_ns args ''debug'' of
        Inl e \<Rightarrow> Inl e
      | Inr debug \<Rightarrow>
          (case getattr_ns args ''genome_size'' of
             Inl e \<Rightarrow> Inl e
           | Inr genome_size \<Rightarrow>
               if \<not> isinstance_int genome_size then Inl GenomeSizeNotInt
               else
                 (case getattr_ns args ''output_tar'' of
                    Inl e \<Rightarrow> Inl e
                  | Inr (PyStr p) \<Rightarrow>
                      if tar_name_ok w (abs_path w p) then Inr (genome_size, abs_path w p)
                      else Inl (InvalidTarName (abs_path w p))
                  | Inr v \<Rightarrow> Inl (TypeError ''expected str''))))"

text \<open>
  Lines 135 to 147. The \<^verbatim>\<open>finally\<close> clause calls \<^verbatim>\<open>os.remove\<close> whatever the \<^verbatim>\<open>try\<close>
  block did, also after the \<^verbatim>\<open>except\<close> clause has raised, and an exception raised in
  \<^verbatim>\<open>finally\<close> replaces the one in flight.
\<close>

definition preflight :: "world \<Rightarrow> path \<Rightarrow> (error + unit) \<times> step list" where
  "preflight w output_tar =
     (if \<not> path_exists w output_tar then
        (let written = fs_open_w w output_tar;
             body = (if written = WriteOk then Inr () else Inl (OutputNotWritable output_tar))
         in (case fs_remove w output_tar of
               Some e \<Rightarrow> Inl e
             | None \<Rightarrow> body,
             [OpenOutput output_tar, RemoveOutput output_tar]))
      else (Inl (OutputExists output_tar), []))"

text \<open>Lines 149 to 151.\<close>

definition locate_inputs :: "world \<Rightarrow> namespace \<Rightarrow> error + (path list \<times> path list \<times> path list)" where
  "locate_inputs w args =
     (case getattr_ns args ''tumour_bas'' of
        Inl e \<Rightarrow> Inl e
      | Inr tb \<Rightarrow>
     (case iterate tb of
        Inl e \<Rightarrow> Inl e
      | Inr tb_paths \<Rightarrow>
     (case get_all_bas w tb_paths of
        Inl e \<Rightarrow> Inl e
      | Inr tumour_bas \<Rightarrow>
     (case getattr_ns args ''normal_bas'' of
        Inl e \<Rightarrow> Inl e
      | Inr nb \<Rightarrow>
     (case iterate nb of
        Inl e \<Rightarrow> Inl e
      | Inr nb_paths \<Rightarrow>
     (case get_all_bas w nb_paths of
        Inl e \<Rightarrow> Inl e
      | Inr normal_bas \<Rightarrow>
     (case getattr_ns args ''variant_call_tar'' of
        Inl e \<Rightarrow> Inl e
      | Inr rt \<Rightarrow>
     (case iterate rt of
        Inl e \<Rightarrow> Inl e
      | Inr rt_paths \<Rightarrow>
     (case get_all_variant_call_tar w rt_paths of
        Inl e \<Rightarrow> Inl e
      | Inr variant_call_tars \<Rightarrow> Inr (tumour_bas, normal_bas, variant_call_tars))))))))))"

text \<open>
  Lines 155 to 157 and 298 to 305. \<^verbatim>\<open>get_t_n_pair_meta\<close> returns the tuple
  \<^verbatim>\<open>(1, 2)\<close>. The local \<^verbatim>\<open>t_n_pair_meta\<close> is assigned only when \<^verbatim>\<open>args.metadata\<close> is
  true: \<open>None\<close> is the unassigned local.
\<close>

definition get_t_n_pair_meta :: "path list \<Rightarrow> pairkey list \<Rightarrow> int \<times> int" where
  "get_t_n_pair_meta meta_files t_n_pairs = (1, 2)"

definition resolve_metadata ::
  "world \<Rightarrow> namespace \<Rightarrow> (pairkey \<times> path) list \<Rightarrow> error + (int \<times> int) option" where
  "resolve_metadata w args t_n_pair_tar =
     (case getattr_ns args ''metadata'' of
        Inl e \<Rightarrow> Inl e
      | Inr metadata \<Rightarrow>
          if truthy metadata then
            (case iterate metadata of
               Inl e \<Rightarrow> Inl e
             | Inr paths \<Rightarrow>
                 (case get_all_meta w paths of
                    Inl e \<Rightarrow> Inl e
                  | Inr metadata_list \<Rightarrow>
                      Inr (Some (get_t_n_pair_meta metadata_list (map fst t_n_pair_tar)))))
          else Inr None)"

text \<open>
  \<^verbatim>\<open>t_n_pair_meta[t_n_pair]\<close>: reading the unassigned local raises
  \<^verbatim>\<open>UnboundLocalError\<close>; a tuple subscripted with a tuple raises \<^verbatim>\<open>TypeError\<close>.
\<close>

fun subscript_meta :: "(int \<times> int) option \<Rightarrow> pairkey \<Rightarrow> error + pyval" where
  "subscript_meta None t_n_pair = Inl (UnboundLocalError ''t_n_pair_meta'')"
| "subscript_meta (Some t) t_n_pair =
     Inl (TypeError ''tuple indices must be integers or slices, not tuple'')"

text \<open>
  Lines 186 to 191: the loop over \<^verbatim>\<open>t_n_pair_tar.items()\<close>. It returns how it ended (the
  genotyping files when it ran through) and the data lines it wrote, in order.
\<close>

fun write_rows ::
  "world \<Rightarrow> (int \<times> int) option \<Rightarrow> (pystr \<times> path) list \<Rightarrow> (pystr \<times> path) list \<Rightarrow>
   pyval \<Rightarrow> pyval \<Rightarrow> (pairkey \<times> path) list \<Rightarrow> (error + path list) \<times> string list" where
  "write_rows w t_n_pair_meta t_name_bas n_name_bas genome_size count_variants [] = (Inr [], [])"
| "write_rows w t_n_pair_meta t_name_bas n_name_bas genome_size count_variants
     ((t_n_pair, v_tar) # rest) =
     (case subscript_meta t_n_pair_meta t_n_pair of
        Inl e \<Rightarrow> (Inl e, [])
      | Inr meta \<Rightarrow>
     (case dict_get t_name_bas (fst t_n_pair) of
        Inl e \<Rightarrow> (Inl e, [])
      | Inr t_bas \<Rightarrow>
     (case dict_get n_name_bas (snd t_n_pair) of
        Inl e \<Rightarrow> (Inl e, [])
      | Inr n_bas \<Rightarrow>
     (case sanger_extractor w t_bas n_bas genome_size v_tar count_variants meta of
        None \<Rightarrow> (Inl (ExtractorError t_n_pair), [])
      | Some (metrics, genotyping) \<Rightarrow>
          (case write_rows w t_n_pair_meta t_name_bas n_name_bas genome_size count_variants rest of
             (Inl e, written) \<Rightarrow> (Inl e, py_join tab metrics # written)
           | (Inr files, written) \<Rightarrow> (Inr (genotyping @ files), py_join tab metrics # written))))))"

text \<open>
  Lines 180 to 201. \<^verbatim>\<open>header = OUTPUT_HEADER\<close> names the module's list, and \<^verbatim>\<open>+=\<close> extends
  that list in place.
\<close>

definition write_report ::
  "world \<Rightarrow> string list \<Rightarrow> step list \<Rightarrow> path \<Rightarrow> pyval \<Rightarrow> pyval \<Rightarrow> (int \<times> int) option \<Rightarrow>
   (pairkey \<times> path) list \<Rightarrow> (pystr \<times> path) list \<Rightarrow> (pystr \<times> path) list \<Rightarrow> run" where
  "write_report w hdr sofar output_tar genome_size count_variants t_n_pair_meta
     t_n_pair_tar t_name_bas n_name_bas =
     (let header = (if truthy count_variants then hdr @ VARIANT_COUNT_HEADER else hdr);
          looped = write_rows w t_n_pair_meta t_name_bas n_name_bas genome_size count_variants
                     t_n_pair_tar;
          written = py_join tab header # snd looped
      in (case fst looped of
            Inl e \<Rightarrow>
              \<lparr>outcome = Inl e, header_after = header, steps = sofar @ [OpenReport],
               report_lines = Some written, final_archive = None\<rparr>
          | Inr genotyping_files \<Rightarrow>
              if tar_write_ok w output_tar then
                \<lparr>outcome = Inr (), header_after = header,
                 steps = sofar @ [OpenReport, PackOutput output_tar],
                 report_lines = Some written, final_archive = Some (written, genotyping_files)\<rparr>
              else
                \<lparr>outcome = Inl FinalOutputFailed, header_after = header,
                 steps = sofar @ [OpenReport, PackOutput output_tar],
                 report_lines = Some written, final_archive = None\<rparr>))"

text \<open>Lines 153 to 201, from the located inputs on.\<close>

definition reconcile_and_write ::
  "world \<Rightarrow> string list \<Rightarrow> step list \<Rightarrow> namespace \<Rightarrow> pyval \<Rightarrow> path \<Rightarrow>
   path list \<Rightarrow> path list \<Rightarrow> path list \<Rightarrow> run" where
  "reconcile_and_write w hdr sofar args genome_size output_tar tumour_bas normal_bas
     variant_call_tars =
     (case get_validated_tn_pair_and_bas_lists w tumour_bas normal_bas variant_call_tars of
        Inl e \<Rightarrow> aborted e hdr sofar
      | Inr (t_n_pair_tar, t_name_bas, n_name_bas) \<Rightarrow>
          (case resolve_metadata w args t_n_pair_tar of
             Inl e \<Rightarrow> aborted e hdr sofar
           | Inr t_n_pair_meta \<Rightarrow>
               (case getattr_ns args ''count_variants'' of
                  Inl e \<Rightarrow> aborted e hdr sofar
                | Inr count_variants \<Rightarrow>
                    write_report w hdr sofar output_tar genome_size count_variants
                      t_n_pair_meta t_n_pair_tar t_name_bas n_name_bas)))"

text \<open>\<^verbatim>\<open>extract_from_sanger\<close>, with the current value of the module's header list.\<close>

definition extract_from_sanger :: "world \<Rightarrow> string list \<Rightarrow> namespace \<Rightarrow> run" where
  "extract_from_sanger w hdr args =
     (case check_args w args of
        Inl e \<Rightarrow> aborted e hdr []
      | Inr (genome_size, output_tar) \<Rightarrow>
          (case preflight w output_tar of
             (Inl e, sofar) \<Rightarrow> aborted e hdr sofar
           | (Inr u, sofar) \<Rightarrow>
               (case locate_inputs w args of
                  Inl e \<Rightarrow> aborted e hdr (sofar @ [ReadInputs])
                | Inr (tumour_bas, normal_bas, variant_call_tars) \<Rightarrow>
                    reconcile_and_write w hdr (sofar @ [ReadInputs]) args genome_size output_tar
                      tumour_bas normal_bas variant_call_tars)))"

section \<open>The command line\<close>

text \<open>
  The parser that \<^verbatim>\<open>main\<close> builds: one entry per \<^verbatim>\<open>add_argument\<close> call (and the
  \<^verbatim>\<open>--help\<close> option that \<^verbatim>\<open>ArgumentParser\<close> adds), with its option strings, its
  destination, its action and whether it is required. \<^verbatim>\<open>argparse\<close> is modelled for the
  command lines in which every argument is an option string written out in full, or does
  not start with a dash, or is the dash alone, or is a negative number. For every other
  command line (abbreviated options, \<^verbatim>\<open>--option=value\<close>, \<^verbatim>\<open>--\<close>, unknown options) the
  model gives no outcome: \<open>NotModelled\<close> is not an exception of the program. A failed
  parse ends the process with status 2, \<^verbatim>\<open>--help\<close> and \<^verbatim>\<open>--version\<close> end it with status
  0 when their turn comes. Python's \<^verbatim>\<open>int\<close> conversion of \<^verbatim>\<open>type=int\<close> is a parameter.
\<close>

datatype action = Store | StoreInt | StoreTrue | PrintAndExit

definition declared_arguments :: "(string list \<times> string \<times> action \<times> bool) list" where
  "declared_arguments =
     [([''-h'', ''--help''], ''help'', PrintAndExit, False),
      ([''-v'', ''--version''], ''version'', PrintAndExit, False),
      ([''-tb'', ''--tumour_bas''], ''tumour_bas'', Store, True),
      ([''-nb'', ''--normal_bas''], ''normal_bas'', Store, True),
      ([''-rt'', ''--variant_call_tar''], ''variant_call_tar'', Store, True),
      ([''-o'', ''--output_tar''], ''output_tar'', Store, True),
      ([''-gs'', ''--genome_size''], ''genome_size'', StoreInt, False),
      ([''-d'', ''--debug''], ''debug'', StoreTrue, False)]"

text \<open>
  The namespace before any argument is read: the default of every stored destination,
  and \<^verbatim>\<open>func\<close> from \<^verbatim>\<open>set_defaults\<close>.
\<close>

definition initial_namespace :: namespace where
  "initial_namespace =
     [(''tumour_bas'', PyNone), (''normal_bas'', PyNone), (''variant_call_tar'', PyNone),
      (''output_tar'', PyNone), (''genome_size'', PyInt 3137454505), (''debug'', PyBool False),
      (''func'', PyFunc ''extract_from_sanger'')]"

definition find_action :: "string \<Rightarrow> (string list \<times> string \<times> action \<times> bool) option" where
  "find_action a = find (\<lambda>(flags, dest, act, req). a \<in> set flags) declared_arguments"

text \<open>
  The arguments the model covers. A negative number is a dash followed by digits, or by
  digits, a dot and digits; the parser has no option of that form, so such an argument is
  never read as an option.
\<close>

definition is_digit :: "char \<Rightarrow> bool" where
  "is_digit c = (CHR ''0'' \<le> c \<and> c \<le> CHR ''9'')"

definition negative_number :: "string \<Rightarrow> bool" where
  "negative_number v =
     (case v of
        [] \<Rightarrow> False
      | c # ds \<Rightarrow>
          c = CHR ''-'' \<and>
          ((ds \<noteq> [] \<and> list_all is_digit ds) \<or>
           (case dropWhile is_digit ds of
              [] \<Rightarrow> False
            | p # fs \<Rightarrow> p = CHR ''.'' \<and> fs \<noteq> [] \<and> list_all is_digit fs)))"

definition modelled_argument :: "string \<Rightarrow> bool" where
  "modelled_argument v =
     (find_action v \<noteq> None \<or>
      (case v of [] \<Rightarrow> True | c # cs \<Rightarrow> c \<noteq> CHR ''-'' \<or> cs = [] \<or> negative_number v))"

text \<open>
  The arguments are read from left to right. An argument that is not an option string
  where an option is expected is left over, and the parse goes on; an option that stores
  a value takes the next argument, which must not be an option string. The result is the
  namespace, the destinations seen, and whether an argument was left over.
\<close>

fun consume ::
  "(string \<Rightarrow> int option) \<Rightarrow> string list \<Rightarrow> namespace \<Rightarrow> string list \<Rightarrow> bool \<Rightarrow>
   error + (namespace \<times> string list \<times> bool)" where
  "consume py_int [] ns seen extras = Inr (ns, seen, extras)"
| "consume py_int [a] ns seen extras =
     (case find_action a of
        None \<Rightarrow> Inr (ns, seen, True)
      | Some (flags, dest, act, req) \<Rightarrow>
          (case act of
             PrintAndExit \<Rightarrow> Inl (SystemExit 0)
           | StoreTrue \<Rightarrow> Inr (dict_set ns dest (PyBool True), dest # seen, extras)
           | Store \<Rightarrow> Inl (SystemExit 2)
           | StoreInt \<Rightarrow> Inl (SystemExit 2)))"
| "consume py_int (a # v # rest) ns seen extras =
     (case find_action a of
        None \<Rightarrow> consume py_int (v # rest) ns seen True
      | Some (flags, dest, act, req) \<Rightarrow>
          (case act of
             PrintAndExit \<Rightarrow> Inl (SystemExit 0)
           | StoreTrue \<Rightarrow>
               consume py_int (v # rest) (dict_set ns dest (PyBool True)) (dest # seen) extras
           | Store \<Rightarrow>
               if find_action v \<noteq> None then Inl (SystemExit 2)
               else consume py_int rest (dict_set ns dest (PyStr v)) (dest # seen) extras
           | StoreInt \<Rightarrow>
               if find_action v \<noteq> None then Inl (SystemExit 2)
               else
                 (case py_int v of
                    None \<Rightarrow> Inl (SystemExit 2)
                  | Some n \<Rightarrow>
                      consume py_int rest (dict_set ns dest (PyInt n)) (dest # seen) extras)))"

definition required_dests :: "string list" where
  "required_dests =
     map (\<lambda>(flags, dest, act, req). dest)
       (filter (\<lambda>(flags, dest, act, req). req) declared_arguments)"

text \<open>
  \<^verbatim>\<open>parse_args\<close>: after the last argument a required option that was not given, or an
  argument that was left over, ends the process with status 2.
\<close>

definition parse_args :: "(string \<Rightarrow> int option) \<Rightarrow> string list \<Rightarrow> error + namespace" where
  "parse_args py_int argv =
     (if \<not> list_all modelled_argument argv then Inl (NotModelled ''argparse'')
      else
        (case consume py_int argv initial_namespace [] False of
           Inl e \<Rightarrow> Inl e
         | Inr (ns, seen, extras) \<Rightarrow>
             if list_all (\<lambda>d. d \<in> set seen) required_dests \<and> \<not> extras then Inr ns
             else Inl (SystemExit 2)))"

text \<open>
  \<^verbatim>\<open>main\<close>: \<open>argv\<close> is \<^verbatim>\<open>sys.argv[1:]\<close>; \<^verbatim>\<open>sys.exit\<close> with a message ends the process
  with status 1.
\<close>

definition main :: "world \<Rightarrow> (string \<Rightarrow> int option) \<Rightarrow> string list \<Rightarrow> string list \<Rightarrow> run" where
  "main w py_int hdr argv =
     (case parse_args py_int argv of
        Inl e \<Rightarrow> aborted e hdr []
      | Inr args \<Rightarrow>
          if 1 < Suc (length argv) then extract_from_sanger w hdr args
          else aborted (SystemExit 1) hdr [])"

section \<open>Names and inputs used in the statements\<close>

text \<open>
  \<open>has_split s\<close>: somewhere in \<open>s\<close> the separator \<^verbatim>\<open>_vs_\<close> occurs with something after
  it. For a normal name \<open>N\<close>, \<open>has_split (ustr ''vs_'' @ N)\<close> says that the name
  \<^verbatim>\<open>..._vs_N\<close> can also be split further to the right (the first three characters
  cover a separator that overlaps the one before \<open>N\<close>).
\<close>

fun has_split :: "pystr \<Rightarrow> bool" where
  "has_split [] = False"
| "has_split (c # cs) =
     ((take 4 (c # cs) = ustr ''_vs_'' \<and> drop 4 (c # cs) \<noteq> []) \<or> has_split cs)"

text \<open>
  What the pattern accepts, written out: a name \<^verbatim>\<open>WGS_<T>_vs_<N>\<close>, with or without one
  line break at its end, both names non-empty and of word and hyphen characters, split
  at the last separator that leaves a normal name.
\<close>

definition accepts :: "(nat \<Rightarrow> bool) \<Rightarrow> pystr \<Rightarrow> pairkey \<Rightarrow> bool" where
  "accepts alnum m k =
     (case k of
        (T, N) \<Rightarrow>
          (m = ustr ''WGS_'' @ T @ ustr ''_vs_'' @ N \<or>
           m = ustr ''WGS_'' @ T @ ustr ''_vs_'' @ N @ [line_break]) \<and>
          T \<noteq> [] \<and> N \<noteq> [] \<and>
          list_all (is_name_char alnum) T \<and> list_all (is_name_char alnum) N \<and>
          \<not> has_split (ustr ''vs_'' @ N))"

text \<open>The pairing convention in the words of the specification.\<close>

definition spec_pairing_name :: "(nat \<Rightarrow> bool) \<Rightarrow> pystr \<Rightarrow> pystr \<Rightarrow> pystr \<Rightarrow> bool" where
  "spec_pairing_name alnum m T N =
     (m = ustr ''WGS_'' @ T @ ustr ''_vs_'' @ N \<and> T \<noteq> [] \<and> N \<noteq> [] \<and>
      list_all (is_name_char alnum) T \<and> list_all (is_name_char alnum) N)"

text \<open>
  A small cohort: one tumour and one normal statistics file, one archive, one metadata
  file, an output path that is free and writable, and an extractor that answers every
  request. In its Unicode table the letter \<^verbatim>\<open>U+00E9\<close> is alphanumeric.
\<close>

definition base_world :: world where
  "base_world =
     \<lparr>fs_kind = (\<lambda>p. if p \<in> set [''/data/T1.bam.bas'', ''/data/N1.bam.bas'', ''/data/r.tar.gz'',
                                      ''/data/meta.tsv'']
                      then Some RegularFile else None),
      fs_listdir = (\<lambda>p. None),
      fs_open_w = (\<lambda>p. WriteOk),
      fs_remove = (\<lambda>p. None),
      abs_path = (\<lambda>p. p),
      tar_name_ok = (\<lambda>p. True),
      bas_ok = (\<lambda>p. True),
      bas_sample = (\<lambda>p. if p = ''/data/T1.bam.bas'' then Some (ustr ''T1'')
                         else if p = ''/data/N1.bam.bas'' then Some (ustr ''N1'') else None),
      tar_members = (\<lambda>p. if p = ''/data/r.tar.gz''
                          then Some [ustr ''WGS_T1_vs_N1'', ustr ''WGS_T1_vs_N1/run.params'']
                          else None),
      unicode_alnum = (\<lambda>k. k = 233),
      sanger_extractor = (\<lambda>t_bas n_bas genome_size v_tar count_variants meta.
                            Some (replicate 54 ''NA'', [])),
      tar_write_ok = (\<lambda>p. True)\<rparr>"

definition base_args :: namespace where
  "base_args =
     [(''debug'', PyBool False), (''genome_size'', PyInt 3137454505),
      (''output_tar'', PyStr ''/data/out.tar.gz''),
      (''tumour_bas'', PyList [''/data/T1.bam.bas'']),
      (''normal_bas'', PyList [''/data/N1.bam.bas'']),
      (''variant_call_tar'', PyList [''/data/r.tar.gz'']),
      (''metadata'', PyNone), (''count_variants'', PyBool False)]"

definition members_world :: "pystr list \<Rightarrow> world" where
  "members_world ms =
     base_world\<lparr>tar_members := (\<lambda>p. if p = ''/data/r.tar.gz'' then Some ms else None)\<rparr>"

text \<open>
  An input directory \<^verbatim>\<open>/in\<close> whose only entry is a subdirectory named
  \<^verbatim>\<open>sub.bam.bas\<close>; the working directory is another one and has no entry of that name.
\<close>

definition subdir_world :: world where
  "subdir_world =
     base_world
       \<lparr>fs_kind := (\<lambda>p. if p \<in> set [''/in'', ''/in/sub.bam.bas''] then Some Directory else None),
        fs_listdir := (\<lambda>p. if p = ''/in'' then Some [''sub.bam.bas''] else None),
        abs_path := (\<lambda>p. if take 1 p = ''/'' then p else ''/cwd/'' @ p)\<rparr>"

text \<open>An archive directory that holds two regular files with conventional names.\<close>

definition tar_dir_world :: world where
  "tar_dir_world =
     base_world
       \<lparr>fs_kind := (\<lambda>p. if p = ''/tars'' then Some Directory
                         else if p \<in> set [''/tars/sample.tar.gz'', ''/tars/other.tar.gz'']
                         then Some RegularFile else None),
        fs_listdir := (\<lambda>p. if p = ''/tars'' then Some [''sample.tar.gz'', ''other.tar.gz''] else None)\<rparr>"

text \<open>
  The small cohort with an output path in a directory that is missing or not writable:
  the path cannot be opened for writing, no file is created, and \<^verbatim>\<open>os.remove\<close> finds
  nothing to remove.
\<close>

definition unwritable_world :: world where
  "unwritable_world =
     base_world\<lparr>fs_open_w := (\<lambda>p. OpenFails), fs_remove := (\<lambda>p. Some (FileNotFoundError p))\<rparr>"

text \<open>A complete command line, and the destinations that the parser declares.\<close>

definition example_argv :: "string list" where
  "example_argv =
     [''-tb'', ''t.bam.bas'', ''-nb'', ''n.bam.bas'', ''-rt'', ''r.tar.gz'', ''-o'', ''out.tar.gz'']"

definition parser_dests :: "string list" where
  "parser_dests = map (\<lambda>(flags, dest, act, req). dest) declared_arguments"


text \<open>A run with no input at all and variant counting switched on.\<close>

definition empty_cohort_args :: namespace where
  "empty_cohort_args =
     [(''debug'', PyBool False), (''genome_size'', PyInt 3137454505),
      (''output_tar'', PyStr ''/data/out.tar.gz''),
      (''tumour_bas'', PyList []), (''normal_bas'', PyList []), (''variant_call_tar'', PyList []),
      (''metadata'', PyNone), (''count_variants'', PyBool True)]"

text \<open>The output path is taken, and none of the inputs of the small cohort is there.\<close>

definition occupied_world :: world where
  "occupied_world =
     base_world\<lparr>fs_kind := (\<lambda>p. if p = ''/data/out.tar.gz'' then Some RegularFile else None)\<rparr>"

section \<open>The pairing pattern\<close>

lemma ustr_Nil [simp]: "ustr [] = []"
  by (simp add: ustr_def)

lemma ustr_Cons [simp]: "ustr (c # cs) = of_char c # ustr cs"
  by (simp add: ustr_def)

lemma not_name_newline: "\<not> is_name_char alnum line_break"
  by (simp add: is_name_char_def is_word_char_def ascii_alnum_def line_break_def)

lemma vs_name_chars: "list_all (is_name_char alnum) (ustr ''_vs_'')"
  by (simp add: is_name_char_def is_word_char_def ascii_alnum_def)

lemma at_end_tail: "at_end e \<Longrightarrow> e = [] \<or> \<not> is_name_char alnum (hd e)"
  using not_name_newline by (auto simp: at_end_def)

lemma takeWhile_name_tail:
  assumes "list_all (is_name_char alnum) x" "e = [] \<or> \<not> is_name_char alnum (hd e)"
  shows "takeWhile (is_name_char alnum) (x @ e) = x" "dropWhile (is_name_char alnum) (x @ e) = e"
proof -
  have a: "\<And>c. c \<in> set x \<Longrightarrow> is_name_char alnum c" using assms(1) by (simp add: list_all_iff)
  have t: "takeWhile (is_name_char alnum) e = []" using assms(2) by (cases e) auto
  have d: "dropWhile (is_name_char alnum) e = e" using assms(2) by (cases e) auto
  show "takeWhile (is_name_char alnum) (x @ e) = x" using a t by (simp add: takeWhile_append2)
  show "dropWhile (is_name_char alnum) (x @ e) = e" using a d by (simp add: dropWhile_append2)
qed

lemma match_group2_tail:
  assumes "list_all (is_name_char alnum) x" "e = [] \<or> \<not> is_name_char alnum (hd e)"
  shows "match_group2 alnum (x @ e) = (if x \<noteq> [] \<and> at_end e then Some x else None)"
  using takeWhile_name_tail[OF assms] by (simp add: match_group2_def)

lemma take4_len:
  assumes "take 4 x = (ustr ''_vs_'')"
  shows "4 \<le> length x"
proof -
  have "length (take 4 x) = 4" using assms by simp
  then show ?thesis by simp
qed

lemma take4_vs:
  assumes e: "e = [] \<or> \<not> is_name_char alnum (hd e)"
  shows "take 4 (x @ e) = (ustr ''_vs_'') \<longleftrightarrow> take 4 x = (ustr ''_vs_'')"
proof (cases "4 \<le> length x")
  case True
  then show ?thesis by simp
next
  case False
  then have len: "length x < 4" by simp
  have nx: "take 4 x \<noteq> (ustr ''_vs_'')"
    using len take4_len[of x] by auto
  have "take 4 (x @ e) \<noteq> (ustr ''_vs_'')"
  proof
    assume h: "take 4 (x @ e) = (ustr ''_vs_'')"
    have ne: "e \<noteq> []" using h nx by auto
    have "4 \<le> length (x @ e)" using h by (rule take4_len)
    have "take 4 (x @ e) ! length x = (x @ e) ! length x" by (rule nth_take[OF len])
    also have "\<dots> = hd e" using ne by (simp add: nth_append hd_conv_nth)
    finally have "(ustr ''_vs_'') ! length x = hd e" using h by simp
    moreover have "is_name_char alnum (ustr ''_vs_'' ! length x)"
      using vs_name_chars len by (simp add: list_all_length)
    ultimately show False using e ne by simp
  qed
  with nx show ?thesis by simp
qed

lemma try_split_step:
  assumes s: "list_all (is_name_char alnum) s" and e: "e = [] \<or> \<not> is_name_char alnum (hd e)"
    and k: "Suc k \<le> length s"
  shows "try_split alnum (Suc k) (s @ e) =
           (if take 4 (drop (Suc k) s) = (ustr ''_vs_'') \<and> drop (Suc k + 4) s \<noteq> [] \<and> at_end e
            then Some (take (Suc k) s, drop (Suc k + 4) s)
            else try_split alnum k (s @ e))"
proof -
  have d: "drop (Suc k) (s @ e) = drop (Suc k) s @ e" using k by simp
  have t4: "take 4 (drop (Suc k) (s @ e)) = (ustr ''_vs_'') \<longleftrightarrow> take 4 (drop (Suc k) s) = (ustr ''_vs_'')"
    unfolding d by (rule take4_vs[OF e])
  show ?thesis
  proof (cases "take 4 (drop (Suc k) s) = (ustr ''_vs_'')")
    case False
    with t4 show ?thesis by simp
  next
    case True
    then have "4 \<le> length (drop (Suc k) s)"
      by (rule take4_len)
    then have len: "Suc k + 4 \<le> length s" by simp
    have d4: "drop (Suc k + 4) (s @ e) = drop (Suc k + 4) s @ e" using len by simp
    have nm: "list_all (is_name_char alnum) (drop (Suc k + 4) s)"
      using s by (metis append_take_drop_id list_all_append)
    have tk: "take (Suc k) (s @ e) = take (Suc k) s" using k by simp
    have mg: "match_group2 alnum (drop (Suc k + 4) (s @ e)) =
        (if drop (Suc k + 4) s \<noteq> [] \<and> at_end e then Some (drop (Suc k + 4) s) else None)"
      unfolding d4 by (rule match_group2_tail[OF nm e])
    show ?thesis
      using True t4 mg tk by (simp del: drop_append take_append)
  qed
qed

lemma try_split_bad_tail:
  assumes "list_all (is_name_char alnum) s" "e = [] \<or> \<not> is_name_char alnum (hd e)" "\<not> at_end e"
    "k \<le> length s"
  shows "try_split alnum k (s @ e) = None"
  using assms(4)
proof (induction k)
  case 0
  show ?case by simp
next
  case (Suc k)
  then show ?case using try_split_step[OF assms(1,2), of k] assms(3) by simp
qed

lemma try_split_pure:
  assumes "list_all (is_name_char alnum) s" "Suc k \<le> length s"
  shows "try_split alnum (Suc k) s =
           (if take 4 (drop (Suc k) s) = (ustr ''_vs_'') \<and> drop (Suc k + 4) s \<noteq> []
            then Some (take (Suc k) s, drop (Suc k + 4) s)
            else try_split alnum k s)"
  using try_split_step[OF assms(1), of "[]" k] assms(2) by (simp add: at_end_def)

lemma try_split_good_tail:
  assumes "list_all (is_name_char alnum) s" "at_end e" "k \<le> length s"
  shows "try_split alnum k (s @ e) = try_split alnum k s"
  using assms(3)
proof (induction k)
  case 0
  show ?case by simp
next
  case (Suc k)
  then show ?case
    using try_split_step[OF assms(1) at_end_tail[OF assms(2)], of k]
      try_split_pure[OF assms(1), of k] assms(2) by simp
qed

lemma try_split_sound:
  assumes "list_all (is_name_char alnum) s" "k \<le> length s" "try_split alnum k s = Some (T, N)"
  shows "\<exists>j. 0 < j \<and> j \<le> k \<and> T = take j s \<and> drop j s = (ustr ''_vs_'') @ N \<and> N \<noteq> [] \<and>
           (\<forall>i. j < i \<and> i \<le> k \<longrightarrow> \<not> (take 4 (drop i s) = (ustr ''_vs_'') \<and> drop (i + 4) s \<noteq> []))"
  using assms(2,3)
proof (induction k)
  case 0
  then show ?case by simp
next
  case (Suc k)
  show ?case
  proof (cases "take 4 (drop (Suc k) s) = (ustr ''_vs_'') \<and> drop (Suc k + 4) s \<noteq> []")
    case True
    then have "try_split alnum (Suc k) s = Some (take (Suc k) s, drop (Suc k + 4) s)"
      using try_split_pure[OF assms(1), of k] Suc.prems(1) by simp
    then have T: "T = take (Suc k) s" and N: "N = drop (Suc k + 4) s"
      using Suc.prems(2) by simp_all
    have dd: "drop 4 (drop (Suc k) s) = drop (Suc k + 4) s" by (simp add: add.commute)
    have "drop (Suc k) s = take 4 (drop (Suc k) s) @ drop 4 (drop (Suc k) s)"
      by (rule append_take_drop_id[symmetric])
    then have "drop (Suc k) s = (ustr ''_vs_'') @ N" using True N dd by simp
    then show ?thesis using T N True by (intro exI[of _ "Suc k"]) auto
  next
    case False
    then have "try_split alnum (Suc k) s = try_split alnum k s"
      using try_split_pure[OF assms(1), of k] Suc.prems(1) by auto
    then have "try_split alnum k s = Some (T, N)" using Suc.prems(2) by simp
    then obtain j where j: "0 < j" "j \<le> k" "T = take j s" "drop j s = (ustr ''_vs_'') @ N" "N \<noteq> []"
      "\<forall>i. j < i \<and> i \<le> k \<longrightarrow> \<not> (take 4 (drop i s) = (ustr ''_vs_'') \<and> drop (i + 4) s \<noteq> [])"
      using Suc.IH Suc.prems(1) by auto
    have "\<forall>i. j < i \<and> i \<le> Suc k \<longrightarrow> \<not> (take 4 (drop i s) = (ustr ''_vs_'') \<and> drop (i + 4) s \<noteq> [])"
      using j(6) False by (metis le_Suc_eq)
    then show ?thesis using j by (intro exI[of _ j]) auto
  qed
qed

lemma try_split_complete:
  assumes s: "list_all (is_name_char alnum) s" and j: "0 < j" "j \<le> k" and k: "k \<le> length s"
    and d: "drop j s = (ustr ''_vs_'') @ N" "N \<noteq> []"
    and later: "\<forall>i. j < i \<and> i \<le> k \<longrightarrow> \<not> (take 4 (drop i s) = (ustr ''_vs_'') \<and> drop (i + 4) s \<noteq> [])"
  shows "try_split alnum k s = Some (take j s, N)"
  using j(2) k later
proof (induction k rule: dec_induct)
  case base
  obtain j' where j': "j = Suc j'" using j(1) by (cases j) auto
  have "drop 4 (drop j s) = N" using d(1) by simp
  then have "drop (j + 4) s = N" by (simp add: add.commute)
  then show ?case using try_split_pure[OF s, of j'] j' base d by simp
next
  case (step n)
  have "j < Suc n \<and> Suc n \<le> Suc n" using step.hyps by simp
  with step.prems(2) have "\<not> (take 4 (drop (Suc n) s) = (ustr ''_vs_'') \<and> drop (Suc n + 4) s \<noteq> [])"
    by blast
  then have "try_split alnum (Suc n) s = try_split alnum n s"
    using try_split_pure[OF s, of n] step.prems(1) by auto
  then show ?case using step by auto
qed

lemma has_split_iff:
  "has_split u \<longleftrightarrow> (\<exists>i. take 4 (drop i u) = (ustr ''_vs_'') \<and> drop (i + 4) u \<noteq> [])"
proof (induction u)
  case Nil
  show ?case by simp
next
  case (Cons c cs)
  have "(\<exists>i. take 4 (drop i (c # cs)) = (ustr ''_vs_'') \<and> drop (i + 4) (c # cs) \<noteq> []) \<longleftrightarrow>
        (take 4 (c # cs) = (ustr ''_vs_'') \<and> drop 4 (c # cs) \<noteq> []) \<or>
        (\<exists>i. take 4 (drop i cs) = (ustr ''_vs_'') \<and> drop (i + 4) cs \<noteq> [])"
    (is "?L \<longleftrightarrow> ?A \<or> ?B")
  proof
    assume ?L
    then obtain i where i: "take 4 (drop i (c # cs)) = (ustr ''_vs_'')" "drop (i + 4) (c # cs) \<noteq> []" by blast
    show "?A \<or> ?B"
    proof (cases i)
      case 0
      with i show ?thesis by simp
    next
      case (Suc i')
      with i have "take 4 (drop i' cs) = (ustr ''_vs_'') \<and> drop (i' + 4) cs \<noteq> []" by simp
      then show ?thesis by blast
    qed
  next
    assume "?A \<or> ?B"
    then show ?L
    proof
      assume ?A
      then have "take 4 (drop 0 (c # cs)) = (ustr ''_vs_'') \<and> drop (0 + 4) (c # cs) \<noteq> []" by simp
      then show ?L by blast
    next
      assume ?B
      then obtain i where "take 4 (drop i cs) = (ustr ''_vs_'') \<and> drop (i + 4) cs \<noteq> []" by blast
      then have "take 4 (drop (Suc i) (c # cs)) = (ustr ''_vs_'') \<and> drop (Suc i + 4) (c # cs) \<noteq> []" by simp
      then show ?L by blast
    qed
  qed
  then show ?case using Cons.IH by simp
qed

lemma drop_past:
  "drop (Suc (length T + n)) (T @ (ustr ''_vs_'') @ N) = drop n (ustr ''vs_'' @ N)"
  by simp

lemma wgs_match_prefix:
  "wgs_match alnum (ustr ''WGS_'' @ x) = try_split alnum (length (takeWhile (is_name_char alnum) x)) x"
  by (simp add: wgs_match_def del: try_split.simps)

lemma later_split:
  assumes "length T < i" "take 4 (drop i (T @ (ustr ''_vs_'') @ N)) = (ustr ''_vs_'')"
    "drop (i + 4) (T @ (ustr ''_vs_'') @ N) \<noteq> []"
  shows "has_split (ustr ''vs_'' @ N)"
proof -
  obtain i' where i: "i = Suc (length T + i')"
    using assms(1) by (metis less_iff_Suc_add)
  have d: "drop i (T @ (ustr ''_vs_'') @ N) = drop i' (ustr ''vs_'' @ N)"
    unfolding i by (rule drop_past)
  have "i + 4 = Suc (length T + (i' + 4))" unfolding i by simp
  then have d4: "drop (i + 4) (T @ (ustr ''_vs_'') @ N) = drop (i' + 4) (ustr ''vs_'' @ N)"
    by (simp only: drop_past)
  show ?thesis
    unfolding has_split_iff using assms(2,3) unfolding d d4 by blast
qed

lemma split_later:
  assumes "has_split (ustr ''vs_'' @ N)"
  shows "\<exists>i. length T < i \<and> take 4 (drop i (T @ (ustr ''_vs_'') @ N)) = (ustr ''_vs_'') \<and>
             drop (i + 4) (T @ (ustr ''_vs_'') @ N) \<noteq> []"
proof -
  obtain i' where i': "take 4 (drop i' (ustr ''vs_'' @ N)) = (ustr ''_vs_'')" "drop (i' + 4) (ustr ''vs_'' @ N) \<noteq> []"
    using assms unfolding has_split_iff by blast
  let ?i = "Suc (length T + i')"
  have d: "drop ?i (T @ (ustr ''_vs_'') @ N) = drop i' (ustr ''vs_'' @ N)"
    by (rule drop_past)
  have "?i + 4 = Suc (length T + (i' + 4))" by simp
  then have d4: "drop (?i + 4) (T @ (ustr ''_vs_'') @ N) = drop (i' + 4) (ustr ''vs_'' @ N)"
    by (simp only: drop_past)
  have "length T < ?i" by simp
  then show ?thesis using i' d d4 by metis
qed

lemma wgs_match_accepts:
  assumes T: "T \<noteq> []" "list_all (is_name_char alnum) T" and N: "N \<noteq> []" "list_all (is_name_char alnum) N"
    and last: "\<not> has_split (ustr ''vs_'' @ N)" and e: "at_end e"
  shows "wgs_match alnum (ustr ''WGS_'' @ T @ (ustr ''_vs_'') @ N @ e) = Some (T, N)"
proof -
  let ?s = "T @ (ustr ''_vs_'') @ N"
  have s: "list_all (is_name_char alnum) ?s" using T(2) N(2) vs_name_chars by simp
  have tw: "takeWhile (is_name_char alnum) (?s @ e) = ?s"
    by (rule takeWhile_name_tail(1)[OF s at_end_tail[OF e]])
  have later: "\<forall>i. length T < i \<and> i \<le> length ?s \<longrightarrow>
      \<not> (take 4 (drop i ?s) = (ustr ''_vs_'') \<and> drop (i + 4) ?s \<noteq> [])"
    using later_split[of T _ N] last by blast
  have j: "0 < length T" "length T \<le> length ?s" using T(1) by simp_all
  have d: "drop (length T) ?s = (ustr ''_vs_'') @ N" by simp
  have "try_split alnum (length ?s) ?s = Some (take (length T) ?s, N)"
    by (rule try_split_complete[OF s j(1) j(2) order_refl d N(1) later])
  then have "try_split alnum (length ?s) (?s @ e) = Some (T, N)"
    using try_split_good_tail[OF s e order_refl] by simp
  moreover have "wgs_match alnum (ustr ''WGS_'' @ (?s @ e)) = try_split alnum (length ?s) (?s @ e)"
    unfolding wgs_match_prefix tw ..
  moreover have "(ustr ''WGS_'') @ T @ (ustr ''_vs_'') @ N @ e = (ustr ''WGS_'') @ (?s @ e)" by simp
  ultimately show ?thesis by (simp only:)
qed

lemma wgs_match_sound:
  assumes "wgs_match alnum m = Some (T, N)"
  shows "(\<exists>e. at_end e \<and> m = (ustr ''WGS_'') @ T @ (ustr ''_vs_'') @ N @ e) \<and> T \<noteq> [] \<and> N \<noteq> [] \<and>
         list_all (is_name_char alnum) T \<and> list_all (is_name_char alnum) N \<and> \<not> has_split (ustr ''vs_'' @ N)"
proof -
  let ?r = "drop 4 m"
  let ?s = "takeWhile (is_name_char alnum) ?r"
  let ?e = "dropWhile (is_name_char alnum) ?r"
  have w: "take 4 m = (ustr ''WGS_'')" and ts: "try_split alnum (length ?s) ?r = Some (T, N)"
    using assms by (auto simp: wgs_match_def Let_def split: if_splits)
  have m: "m = (ustr ''WGS_'') @ ?r" using w by (metis append_take_drop_id)
  have r: "?r = ?s @ ?e" by simp
  have s: "list_all (is_name_char alnum) ?s" by (simp add: list_all_iff) (meson set_takeWhileD)
  have e: "?e = [] \<or> \<not> is_name_char alnum (hd ?e)" using hd_dropWhile by blast
  have ts': "try_split alnum (length ?s) (?s @ ?e) = Some (T, N)" using ts by simp
  have ae: "at_end ?e"
    using try_split_bad_tail[OF s e _ order_refl] ts' by fastforce
  have "try_split alnum (length ?s) ?s = Some (T, N)"
    using try_split_good_tail[OF s ae order_refl] ts' by simp
  from try_split_sound[OF s order_refl this]
  obtain j where j: "0 < j" "j \<le> length ?s" "T = take j ?s" "drop j ?s = (ustr ''_vs_'') @ N" "N \<noteq> []"
    "\<forall>i. j < i \<and> i \<le> length ?s \<longrightarrow> \<not> (take 4 (drop i ?s) = (ustr ''_vs_'') \<and> drop (i + 4) ?s \<noteq> [])"
    by blast
  have sTN: "?s = T @ (ustr ''_vs_'') @ N" using j(3,4) by (metis append_take_drop_id)
  have lenT: "length T = j" using j(2,3) by simp
  have Tne: "T \<noteq> []" using j(1) lenT by auto
  have TN: "list_all (is_name_char alnum) T" "list_all (is_name_char alnum) N"
    using s unfolding sTN by simp_all
  have "\<not> has_split (ustr ''vs_'' @ N)"
  proof
    assume "has_split (ustr ''vs_'' @ N)"
    from split_later[OF this, of T]
    obtain i where i: "length T < i" "take 4 (drop i ?s) = (ustr ''_vs_'')" "drop (i + 4) ?s \<noteq> []"
      unfolding sTN[symmetric] by blast
    have "i \<le> length ?s" using i(3) by (metis drop_all le_add1 le_trans nat_le_linear)
    then show False using j(6) i lenT by blast
  qed
  moreover have "m = (ustr ''WGS_'') @ T @ (ustr ''_vs_'') @ N @ ?e"
    using m r sTN by (metis append.assoc)
  ultimately show ?thesis using ae Tne j(5) TN by blast
qed

lemma wgs_match_iff:
  "wgs_match alnum m = Some (T, N) \<longleftrightarrow>
     (\<exists>e. at_end e \<and> m = (ustr ''WGS_'') @ T @ (ustr ''_vs_'') @ N @ e) \<and> T \<noteq> [] \<and> N \<noteq> [] \<and>
     list_all (is_name_char alnum) T \<and> list_all (is_name_char alnum) N \<and>
     \<not> has_split ((ustr ''vs_'') @ N)"
proof
  assume "wgs_match alnum m = Some (T, N)"
  then show "(\<exists>e. at_end e \<and> m = (ustr ''WGS_'') @ T @ (ustr ''_vs_'') @ N @ e) \<and> T \<noteq> [] \<and>
     N \<noteq> [] \<and> list_all (is_name_char alnum) T \<and> list_all (is_name_char alnum) N \<and>
     \<not> has_split ((ustr ''vs_'') @ N)"
    by (rule wgs_match_sound)
next
  assume a: "(\<exists>e. at_end e \<and> m = (ustr ''WGS_'') @ T @ (ustr ''_vs_'') @ N @ e) \<and> T \<noteq> [] \<and>
     N \<noteq> [] \<and> list_all (is_name_char alnum) T \<and> list_all (is_name_char alnum) N \<and>
     \<not> has_split ((ustr ''vs_'') @ N)"
  then obtain e where e: "at_end e" and m: "m = (ustr ''WGS_'') @ T @ (ustr ''_vs_'') @ N @ e"
    by (elim conjE exE)
  from a have T: "T \<noteq> []" "list_all (is_name_char alnum) T"
    and N: "N \<noteq> []" "list_all (is_name_char alnum) N"
    and l: "\<not> has_split ((ustr ''vs_'') @ N)"
    by simp_all
  show "wgs_match alnum m = Some (T, N)"
    unfolding m by (rule wgs_match_accepts[OF T N l e])
qed
section \<open>Runs without metadata\<close>

text \<open>
  Claim C1 says that a run without metadata inputs processes every pair without error.
  The run below has one valid pair, \<^verbatim>\<open>args.metadata\<close> is \<^verbatim>\<open>None\<close>, every input is
  present and the extractor answers. The local \<^verbatim>\<open>t_n_pair_meta\<close> is then never assigned,
  and the first pass of the loop reads it: the run ends with \<^verbatim>\<open>UnboundLocalError\<close>
  after the header line, with no data line and no final archive.
\<close>

theorem no_metadata_run_fails:
  "outcome (extract_from_sanger base_world OUTPUT_HEADER base_args) =
     Inl (UnboundLocalError ''t_n_pair_meta'') \<and>
   report_lines (extract_from_sanger base_world OUTPUT_HEADER base_args) =
     Some [py_join tab OUTPUT_HEADER] \<and>
   final_archive (extract_from_sanger base_world OUTPUT_HEADER base_args) = None"
  by (simp add: extract_from_sanger_def check_args_def getattr_ns_def base_args_def base_world_def
      preflight_def path_exists_def locate_inputs_def bas_of_path_def
      check_file_exists_def isdir_def tars_of_path_def reconcile_and_write_def
      get_validated_tn_pair_and_bas_lists_def get_all_t_n_pairs_def pair_of_archive_def
      wgs_match_def match_group2_def at_end_def line_break_def is_name_char_def is_word_char_def ascii_alnum_def
      get_sample_names_bas_file_dict_def sorted_missing_def resolve_metadata_def
      write_report_def)

section \<open>Archive identity\<close>

lemma wgs_match_accepts_iff: "wgs_match alnum m = Some k \<longleftrightarrow> accepts alnum m k"
proof (cases k)
  case (Pair T N)
  have "(\<exists>e. at_end e \<and> m = ustr ''WGS_'' @ T @ ustr ''_vs_'' @ N @ e) \<longleftrightarrow>
        (m = ustr ''WGS_'' @ T @ ustr ''_vs_'' @ N \<or>
         m = ustr ''WGS_'' @ T @ ustr ''_vs_'' @ N @ [line_break])"
    by (auto simp: at_end_def)
  then show ?thesis
    unfolding Pair accepts_def wgs_match_iff by simp
qed

lemma wgs_match_None_iff: "wgs_match alnum m = None \<longleftrightarrow> (\<forall>k. \<not> accepts alnum m k)"
  using wgs_match_accepts_iff[of alnum m] by (cases "wgs_match alnum m") auto

lemma first_pair_None:
  "first_pair alnum ms = None \<longleftrightarrow> (\<forall>x\<in>set ms. wgs_match alnum x = None)"
  by (induction ms) (auto split: option.splits)

lemma first_pair_Some:
  "first_pair alnum ms = Some k \<longleftrightarrow>
     (\<exists>before m rest. ms = before @ m # rest \<and> (\<forall>x\<in>set before. wgs_match alnum x = None) \<and>
        wgs_match alnum m = Some k)"
proof (induction ms)
  case Nil
  show ?case by simp
next
  case (Cons a ms)
  show ?case
  proof (cases "wgs_match alnum a")
    case None
    have "(\<exists>before m rest. a # ms = before @ m # rest \<and>
             (\<forall>x\<in>set before. wgs_match alnum x = None) \<and> wgs_match alnum m = Some k) \<longleftrightarrow>
          (\<exists>before m rest. ms = before @ m # rest \<and>
             (\<forall>x\<in>set before. wgs_match alnum x = None) \<and> wgs_match alnum m = Some k)"
      (is "?L \<longleftrightarrow> ?R")
    proof
      assume ?L
      then obtain before m rest where h: "a # ms = before @ m # rest"
        "\<forall>x\<in>set before. wgs_match alnum x = None" "wgs_match alnum m = Some k" by blast
      show ?R
      proof (cases before)
        case Nil
        with h None show ?thesis by simp
      next
        case (Cons b bs)
        with h have "ms = bs @ m # rest" "\<forall>x\<in>set bs. wgs_match alnum x = None" by simp_all
        with h(3) show ?thesis by blast
      qed
    next
      assume ?R
      then obtain before m rest where h: "ms = before @ m # rest"
        "\<forall>x\<in>set before. wgs_match alnum x = None" "wgs_match alnum m = Some k" by blast
      have "a # ms = (a # before) @ m # rest" "\<forall>x\<in>set (a # before). wgs_match alnum x = None"
        using h None by simp_all
      with h(3) show ?L by blast
    qed
    with None Cons.IH show ?thesis by simp
  next
    case (Some k')
    have "(\<exists>before m rest. a # ms = before @ m # rest \<and>
             (\<forall>x\<in>set before. wgs_match alnum x = None) \<and> wgs_match alnum m = Some k) \<longleftrightarrow>
          k' = k" (is "?L \<longleftrightarrow> _")
    proof
      assume ?L
      then obtain before m rest where h: "a # ms = before @ m # rest"
        "\<forall>x\<in>set before. wgs_match alnum x = None" "wgs_match alnum m = Some k" by blast
      show "k' = k"
      proof (cases before)
        case Nil
        with h Some show ?thesis by simp
      next
        case (Cons b bs)
        with h Some show ?thesis by simp
      qed
    next
      assume "k' = k"
      then have "a # ms = [] @ a # ms" "\<forall>x\<in>set []. wgs_match alnum x = None"
        "wgs_match alnum a = Some k"
        using Some by simp_all
      then show ?L by blast
    qed
    with Some show ?thesis by simp
  qed
qed

lemma pair_of_archive_first:
  assumes "tar_members w a = Some members"
  shows "pair_of_archive w a =
           (case first_pair (unicode_alnum w) members of
              None \<Rightarrow> Inl (InvalidArchive a)
            | Some k \<Rightarrow> Inr k)"
proof (cases "first_pair (unicode_alnum w) members")
  case None
  with assms show ?thesis by (simp add: pair_of_archive_def)
next
  case (Some k)
  obtain T N where k: "k = (T, N)" by (cases k)
  from Some obtain m where "wgs_match (unicode_alnum w) m = Some (T, N)"
    unfolding first_pair_Some k by blast
  then have "T \<noteq> []" using wgs_match_sound by blast
  with assms Some k show ?thesis by (simp add: pair_of_archive_def)
qed

lemma pair_of_archive_accepts:
  assumes "tar_members w a = Some members"
  shows "pair_of_archive w a = Inr k \<longleftrightarrow>
           (\<exists>before m rest. members = before @ m # rest \<and>
              (\<forall>x\<in>set before. \<forall>k'. \<not> accepts (unicode_alnum w) x k') \<and>
              accepts (unicode_alnum w) m k)"
    and "pair_of_archive w a = Inl (InvalidArchive a) \<longleftrightarrow>
           (\<forall>x\<in>set members. \<forall>k'. \<not> accepts (unicode_alnum w) x k')"
    and "(\<exists>r. pair_of_archive w a = Inr r) \<or> pair_of_archive w a = Inl (InvalidArchive a)"
proof -
  have p: "pair_of_archive w a =
      (case first_pair (unicode_alnum w) members of
         None \<Rightarrow> Inl (InvalidArchive a)
       | Some k \<Rightarrow> Inr k)"
    by (rule pair_of_archive_first[OF assms])
  have 1: "pair_of_archive w a = Inr k \<longleftrightarrow> first_pair (unicode_alnum w) members = Some k"
    unfolding p by (simp split: option.splits)
  have 2: "pair_of_archive w a = Inl (InvalidArchive a) \<longleftrightarrow>
      first_pair (unicode_alnum w) members = None"
    unfolding p by (simp split: option.splits)
  show "pair_of_archive w a = Inr k \<longleftrightarrow>
      (\<exists>before m rest. members = before @ m # rest \<and>
         (\<forall>x\<in>set before. \<forall>k'. \<not> accepts (unicode_alnum w) x k') \<and>
         accepts (unicode_alnum w) m k)"
    unfolding 1 first_pair_Some wgs_match_None_iff wgs_match_accepts_iff ..
  show "pair_of_archive w a = Inl (InvalidArchive a) \<longleftrightarrow>
      (\<forall>x\<in>set members. \<forall>k'. \<not> accepts (unicode_alnum w) x k')"
    unfolding 2 first_pair_None wgs_match_None_iff ..
  show "(\<exists>r. pair_of_archive w a = Inr r) \<or> pair_of_archive w a = Inl (InvalidArchive a)"
    unfolding p by (simp split: option.splits)
qed

lemma t_n_pairs_from_snoc:
  "t_n_pairs_from w d (tars @ [a]) =
     (case t_n_pairs_from w d tars of
        Inl e \<Rightarrow> Inl e
      | Inr d' \<Rightarrow>
          (case pair_of_archive w a of Inl e \<Rightarrow> Inl e | Inr k \<Rightarrow> Inr (dict_set d' k a)))"
  by (induction tars arbitrary: d) (simp_all split: sum.splits)

lemma get_all_t_n_pairs_snoc:
  "get_all_t_n_pairs w (tars @ [a]) =
     (case get_all_t_n_pairs w tars of
        Inl e \<Rightarrow> Inl e
      | Inr d \<Rightarrow>
          (case pair_of_archive w a of Inl e \<Rightarrow> Inl e | Inr k \<Rightarrow> Inr (dict_set d k a)))"
  unfolding get_all_t_n_pairs_def by (rule t_n_pairs_from_snoc)

lemma get_all_t_n_pairs_single:
  "get_all_t_n_pairs w [a] =
     (case pair_of_archive w a of Inl e \<Rightarrow> Inl e | Inr k \<Rightarrow> Inr [(k, a)])"
  by (simp add: get_all_t_n_pairs_def split: sum.splits)

text \<open>
  Claim C5, as the code has it. \<^verbatim>\<open>get_all_t_n_pairs\<close> on one archive that can be read
  returns the pair of the first member, in the archive's order, that the pattern
  accepts, and it fails with the invalid-archive error exactly when the pattern accepts
  no member; there is no third outcome. What the pattern accepts is \<open>accepts\<close>: the name
  \<^verbatim>\<open>WGS_<T>_vs_<N>\<close>, also when one line break follows it, with \<open>T\<close> and \<open>N\<close> of word and
  hyphen characters (for the code points beyond ASCII as the interpreter's Unicode table
  has them) and \<open>T\<close> the longest possible tumour name (the split is at the last \<^verbatim>\<open>_vs_\<close>
  that leaves a normal name). In a list of archives the same holds for each archive in
  its turn: after archives that gave the map \<open>d\<close>, the archive adds its pair to \<open>d\<close> or
  ends the call with the invalid-archive error, and an earlier failure stays.
\<close>

theorem archive_identity:
  assumes "tar_members w a = Some members"
  shows "(get_all_t_n_pairs w [a] = Inr [(k, a)] \<longleftrightarrow>
            (\<exists>before m rest. members = before @ m # rest \<and>
               (\<forall>x\<in>set before. \<forall>k'. \<not> accepts (unicode_alnum w) x k') \<and>
               accepts (unicode_alnum w) m k)) \<and>
         (get_all_t_n_pairs w [a] = Inl (InvalidArchive a) \<longleftrightarrow>
            (\<forall>x\<in>set members. \<forall>k'. \<not> accepts (unicode_alnum w) x k')) \<and>
         ((\<exists>r. get_all_t_n_pairs w [a] = Inr [(r, a)]) \<or>
          get_all_t_n_pairs w [a] = Inl (InvalidArchive a)) \<and>
         (\<forall>d. get_all_t_n_pairs w tars = Inr d \<longrightarrow>
            ((\<exists>before m rest. members = before @ m # rest \<and>
                  (\<forall>x\<in>set before. \<forall>k'. \<not> accepts (unicode_alnum w) x k') \<and>
                  accepts (unicode_alnum w) m k) \<longrightarrow>
             get_all_t_n_pairs w (tars @ [a]) = Inr (dict_set d k a)) \<and>
            (get_all_t_n_pairs w (tars @ [a]) = Inl (InvalidArchive a) \<longleftrightarrow>
               (\<forall>x\<in>set members. \<forall>k'. \<not> accepts (unicode_alnum w) x k'))) \<and>
         (\<forall>e. get_all_t_n_pairs w tars = Inl e \<longrightarrow> get_all_t_n_pairs w (tars @ [a]) = Inl e)"
proof -
  note p = pair_of_archive_accepts[OF assms]
  have c1: "get_all_t_n_pairs w [a] = Inr [(k, a)] \<longleftrightarrow> pair_of_archive w a = Inr k"
    unfolding get_all_t_n_pairs_single by (simp split: sum.splits)
  have c2: "get_all_t_n_pairs w [a] = Inl (InvalidArchive a) \<longleftrightarrow>
      pair_of_archive w a = Inl (InvalidArchive a)"
    unfolding get_all_t_n_pairs_single by (simp split: sum.splits)
  have c3: "(\<exists>r. get_all_t_n_pairs w [a] = Inr [(r, a)]) \<or>
      get_all_t_n_pairs w [a] = Inl (InvalidArchive a)"
    using p(3) unfolding get_all_t_n_pairs_single by (auto split: sum.splits)
  have c4: "\<forall>d. get_all_t_n_pairs w tars = Inr d \<longrightarrow>
      (pair_of_archive w a = Inr k \<longrightarrow>
         get_all_t_n_pairs w (tars @ [a]) = Inr (dict_set d k a)) \<and>
      (get_all_t_n_pairs w (tars @ [a]) = Inl (InvalidArchive a) \<longleftrightarrow>
         pair_of_archive w a = Inl (InvalidArchive a))"
    unfolding get_all_t_n_pairs_snoc by (simp split: sum.splits)
  have c5: "\<forall>e. get_all_t_n_pairs w tars = Inl e \<longrightarrow> get_all_t_n_pairs w (tars @ [a]) = Inl e"
    unfolding get_all_t_n_pairs_snoc by simp
  from c1 c2 c3 c4 c5 show ?thesis
    unfolding p(1) p(2) by (intro conjI)
qed

theorem archive_identity_witness:
  "tar_members (members_world [ustr ''WGS_a_vs_b_vs_c'']) ''/data/r.tar.gz'' =
     Some [ustr ''WGS_a_vs_b_vs_c''] \<and>
   get_all_t_n_pairs (members_world [ustr ''WGS_a_vs_b_vs_c'']) [''/data/r.tar.gz''] =
     Inr [((ustr ''a_vs_b'', ustr ''c''), ''/data/r.tar.gz'')] \<and>
   (\<exists>before m rest. [ustr ''WGS_a_vs_b_vs_c''] = before @ m # rest \<and>
      (\<forall>x\<in>set before.
          \<forall>k'. \<not> accepts (unicode_alnum (members_world [ustr ''WGS_a_vs_b_vs_c''])) x k') \<and>
      accepts (unicode_alnum (members_world [ustr ''WGS_a_vs_b_vs_c''])) m
        (ustr ''a_vs_b'', ustr ''c''))"
proof -
  have t: "tar_members (members_world [ustr ''WGS_a_vs_b_vs_c'']) ''/data/r.tar.gz'' =
      Some [ustr ''WGS_a_vs_b_vs_c'']"
    by (simp add: members_world_def)
  have p: "get_all_t_n_pairs (members_world [ustr ''WGS_a_vs_b_vs_c'']) [''/data/r.tar.gz''] =
      Inr [((ustr ''a_vs_b'', ustr ''c''), ''/data/r.tar.gz'')]"
    by (simp add: get_all_t_n_pairs_def members_world_def base_world_def pair_of_archive_def
        wgs_match_def match_group2_def at_end_def line_break_def is_name_char_def
        is_word_char_def ascii_alnum_def)
  from archive_identity[OF t, of "(ustr ''a_vs_b'', ustr ''c'')" "[]"] p
  have "\<exists>before m rest. [ustr ''WGS_a_vs_b_vs_c''] = before @ m # rest \<and>
      (\<forall>x\<in>set before.
          \<forall>k'. \<not> accepts (unicode_alnum (members_world [ustr ''WGS_a_vs_b_vs_c''])) x k') \<and>
      accepts (unicode_alnum (members_world [ustr ''WGS_a_vs_b_vs_c''])) m
        (ustr ''a_vs_b'', ustr ''c'')"
    by blast
  with t p show ?thesis by (intro conjI)
qed

text \<open>
  The claim as written fails for a name with two separators: \<^verbatim>\<open>WGS_a_vs_b_vs_c\<close> is
  \<^verbatim>\<open>WGS_<T>_vs_<N>\<close> for \<open>T = a\<close> and \<open>N = b_vs_c\<close>, and the parser returns
  \<open>(a_vs_b, c)\<close>.
\<close>

theorem greedy_split_counterexample:
  "spec_pairing_name (unicode_alnum base_world) (ustr ''WGS_a_vs_b_vs_c'') (ustr ''a'')
     (ustr ''b_vs_c'') \<and>
   get_all_t_n_pairs (members_world [ustr ''WGS_a_vs_b_vs_c'']) [''/data/r.tar.gz''] =
     Inr [((ustr ''a_vs_b'', ustr ''c''), ''/data/r.tar.gz'')] \<and>
   get_all_t_n_pairs (members_world [ustr ''WGS_a_vs_b_vs_c'']) [''/data/r.tar.gz''] \<noteq>
     Inr [((ustr ''a'', ustr ''b_vs_c''), ''/data/r.tar.gz'')]"
  by (simp add: spec_pairing_name_def get_all_t_n_pairs_def members_world_def base_world_def
      pair_of_archive_def wgs_match_def match_group2_def at_end_def line_break_def
      is_name_char_def is_word_char_def ascii_alnum_def)

text \<open>
  A letter beyond ASCII is a word character where the interpreter's table says so: with
  \<^verbatim>\<open>U+00E9\<close> alphanumeric, the member whose tumour name is \<open>T\<close> followed by that letter
  and whose normal name is \<open>N1\<close> is accepted, and it is the one that counts when it
  stands before another accepted member.
\<close>

lemma non_ascii_name_is_accepted:
  "get_all_t_n_pairs
     (members_world [ustr ''WGS_T'' @ [233] @ ustr ''_vs_N1'', ustr ''WGS_T1_vs_N1_extra_junk''])
     [''/data/r.tar.gz''] =
     Inr [((ustr ''T'' @ [233], ustr ''N1''), ''/data/r.tar.gz'')]"
  by (simp add: get_all_t_n_pairs_def members_world_def base_world_def pair_of_archive_def
      wgs_match_def match_group2_def at_end_def line_break_def is_name_char_def
      is_word_char_def ascii_alnum_def)

text \<open>
  Claim C3, as the code has it: the underscore is a word character, so the pattern
  accepts \<^verbatim>\<open>WGS_T1_vs_N1_extra_junk\<close>. An archive that has this member and no other
  member that the pattern accepts is parsed to the pair \<open>(T1, N1_extra_junk)\<close>; no error
  is raised for it.
\<close>

theorem extra_junk_is_accepted:
  assumes "tar_members w a = Some members"
    and "ustr ''WGS_T1_vs_N1_extra_junk'' \<in> set members"
    and "\<forall>m\<in>set members. m \<noteq> ustr ''WGS_T1_vs_N1_extra_junk'' \<longrightarrow>
           wgs_match (unicode_alnum w) m = None"
  shows "pair_of_archive w a = Inr (ustr ''T1'', ustr ''N1_extra_junk'') \<and>
         get_all_t_n_pairs w [a] = Inr [((ustr ''T1'', ustr ''N1_extra_junk''), a)]"
proof -
  have j: "wgs_match (unicode_alnum w) (ustr ''WGS_T1_vs_N1_extra_junk'') =
      Some (ustr ''T1'', ustr ''N1_extra_junk'')"
    by (simp add: wgs_match_def match_group2_def at_end_def line_break_def is_name_char_def
        is_word_char_def ascii_alnum_def)
  have "first_pair (unicode_alnum w) members = Some (ustr ''T1'', ustr ''N1_extra_junk'')"
    using assms(2,3)
  proof (induction members)
    case Nil
    then show ?case by simp
  next
    case (Cons m ms)
    show ?case
    proof (cases "m = ustr ''WGS_T1_vs_N1_extra_junk''")
      case True
      then show ?thesis using j by (simp del: ustr_Cons)
    next
      case False
      with Cons.prems have "wgs_match (unicode_alnum w) m = None"
        "ustr ''WGS_T1_vs_N1_extra_junk'' \<in> set ms" by auto
      with Cons show ?thesis by (simp del: ustr_Cons)
    qed
  qed
  then have "pair_of_archive w a = Inr (ustr ''T1'', ustr ''N1_extra_junk'')"
    using pair_of_archive_first[OF assms(1)] by simp
  then show ?thesis by (simp add: get_all_t_n_pairs_def)
qed

theorem extra_junk_is_accepted_witness:
  "pair_of_archive (members_world [ustr ''README.txt'', ustr ''WGS_T1_vs_N1_extra_junk''])
     ''/data/r.tar.gz'' = Inr (ustr ''T1'', ustr ''N1_extra_junk'') \<and>
   get_all_t_n_pairs (members_world [ustr ''README.txt'', ustr ''WGS_T1_vs_N1_extra_junk''])
     [''/data/r.tar.gz''] = Inr [((ustr ''T1'', ustr ''N1_extra_junk''), ''/data/r.tar.gz'')]"
proof -
  have t: "tar_members (members_world [ustr ''README.txt'', ustr ''WGS_T1_vs_N1_extra_junk''])
      ''/data/r.tar.gz'' = Some [ustr ''README.txt'', ustr ''WGS_T1_vs_N1_extra_junk'']"
    by (simp add: members_world_def)
  have m: "ustr ''WGS_T1_vs_N1_extra_junk'' \<in>
      set [ustr ''README.txt'', ustr ''WGS_T1_vs_N1_extra_junk'']" by simp
  have n: "\<forall>m\<in>set [ustr ''README.txt'', ustr ''WGS_T1_vs_N1_extra_junk''].
      m \<noteq> ustr ''WGS_T1_vs_N1_extra_junk'' \<longrightarrow>
      wgs_match (unicode_alnum (members_world
        [ustr ''README.txt'', ustr ''WGS_T1_vs_N1_extra_junk''])) m = None"
    by (simp add: wgs_match_def)
  show ?thesis by (rule extra_junk_is_accepted[OF t m n])
qed

text \<open>The archive of the specification's second scenario is accepted, not rejected.\<close>

theorem extra_junk_counterexample:
  "get_all_t_n_pairs (members_world [ustr ''WGS_T1_vs_N1_extra_junk'']) [''/data/r.tar.gz''] =
     Inr [((ustr ''T1'', ustr ''N1_extra_junk''), ''/data/r.tar.gz'')]"
  by (simp add: get_all_t_n_pairs_def members_world_def base_world_def pair_of_archive_def
      wgs_match_def match_group2_def at_end_def line_break_def is_name_char_def
      is_word_char_def ascii_alnum_def)

section \<open>Cohort reconciliation\<close>

lemma sorted_missing_eq: "sorted_missing E P = sorted_list_of_set (set E - set P)"
proof -
  have "set (filter (\<lambda>x. x \<notin> set P) E) = set E - set P" by auto
  then show ?thesis
    unfolding sorted_missing_def by (metis sorted_list_of_set_sort_remdups)
qed

lemma sorted_missing_Nil: "sorted_missing E P = [] \<longleftrightarrow> set E - set P = {}"
  unfolding sorted_missing_eq by (simp add: sorted_list_of_set_eq_Nil_iff)

text \<open>
  Claim C4, as the code has it. With the pair map parsed from the archives and the two
  sample-name maps read from the statistics files, let \<open>E\<close> be the expected names of a
  role and \<open>P\<close> the names present in that role's map. The reconciler checks the tumours
  first and the normals second: it fails if and only if \<open>E - P\<close> is not empty for one of
  the two roles, the error is that of the first role whose \<open>E - P\<close> is not empty and its
  names are \<open>sorted (E - P)\<close> of that role, and otherwise the three maps are returned
  unchanged. When it fails, the rest of the run is not entered: no report file is opened,
  no pair is extracted and no archive is written.
\<close>

theorem reconciler_missing_samples:
  assumes "get_all_t_n_pairs w tars = Inr pairs"
    and "get_sample_names_bas_file_dict w tumour_bas = Inr t_name_bas"
    and "get_sample_names_bas_file_dict w normal_bas = Inr n_name_bas"
  shows "get_validated_tn_pair_and_bas_lists w tumour_bas normal_bas tars =
           (if set (map (fst \<circ> fst) pairs) - set (map fst t_name_bas) \<noteq> {}
            then Inl (MissingTumourBas
                   (sorted_list_of_set (set (map (fst \<circ> fst) pairs) - set (map fst t_name_bas))))
            else if set (map (snd \<circ> fst) pairs) - set (map fst n_name_bas) \<noteq> {}
            then Inl (MissingNormalBas
                   (sorted_list_of_set (set (map (snd \<circ> fst) pairs) - set (map fst n_name_bas))))
            else Inr (pairs, t_name_bas, n_name_bas)) \<and>
         ((\<exists>e. get_validated_tn_pair_and_bas_lists w tumour_bas normal_bas tars = Inl e) \<longleftrightarrow>
            set (map (fst \<circ> fst) pairs) - set (map fst t_name_bas) \<noteq> {} \<or>
            set (map (snd \<circ> fst) pairs) - set (map fst n_name_bas) \<noteq> {}) \<and>
         (\<forall>e. get_validated_tn_pair_and_bas_lists w tumour_bas normal_bas tars = Inl e \<longrightarrow>
            reconcile_and_write w hdr sofar args genome_size output_tar tumour_bas normal_bas tars =
              \<lparr>outcome = Inl e, header_after = hdr, steps = sofar, report_lines = None,
               final_archive = None\<rparr>)"
proof -
  have 1: "get_validated_tn_pair_and_bas_lists w tumour_bas normal_bas tars =
           (if set (map (fst \<circ> fst) pairs) - set (map fst t_name_bas) \<noteq> {}
            then Inl (MissingTumourBas
                   (sorted_list_of_set (set (map (fst \<circ> fst) pairs) - set (map fst t_name_bas))))
            else if set (map (snd \<circ> fst) pairs) - set (map fst n_name_bas) \<noteq> {}
            then Inl (MissingNormalBas
                   (sorted_list_of_set (set (map (snd \<circ> fst) pairs) - set (map fst n_name_bas))))
            else Inr (pairs, t_name_bas, n_name_bas))"
    unfolding get_validated_tn_pair_and_bas_lists_def assms sorted_missing_Nil
    unfolding sorted_missing_eq by (simp only: sum.case prod.case if_not_P if_P split: if_splits)
  have 2: "(\<exists>e. get_validated_tn_pair_and_bas_lists w tumour_bas normal_bas tars = Inl e) \<longleftrightarrow>
            set (map (fst \<circ> fst) pairs) - set (map fst t_name_bas) \<noteq> {} \<or>
            set (map (snd \<circ> fst) pairs) - set (map fst n_name_bas) \<noteq> {}"
    unfolding 1 by (simp only: split: if_splits) blast
  have 3: "\<forall>e. get_validated_tn_pair_and_bas_lists w tumour_bas normal_bas tars = Inl e \<longrightarrow>
            reconcile_and_write w hdr sofar args genome_size output_tar tumour_bas normal_bas tars =
              \<lparr>outcome = Inl e, header_after = hdr, steps = sofar, report_lines = None,
               final_archive = None\<rparr>"
    by (simp add: reconcile_and_write_def aborted_def)
  from 1 2 3 show ?thesis by (intro conjI)
qed

theorem reconciler_missing_samples_witness:
  "get_validated_tn_pair_and_bas_lists (members_world [ustr ''WGS_T2_vs_N1''])
     [''/data/T1.bam.bas''] [''/data/N1.bam.bas''] [''/data/r.tar.gz''] =
     Inl (MissingTumourBas [ustr ''T2'']) \<and>
   reconcile_and_write (members_world [ustr ''WGS_T2_vs_N1'']) OUTPUT_HEADER [] base_args
     (PyInt 3137454505) ''/data/out.tar.gz''
     [''/data/T1.bam.bas''] [''/data/N1.bam.bas''] [''/data/r.tar.gz''] =
     \<lparr>outcome = Inl (MissingTumourBas [ustr ''T2'']), header_after = OUTPUT_HEADER, steps = [],
      report_lines = None, final_archive = None\<rparr>"
proof -
  let ?w = "members_world [ustr ''WGS_T2_vs_N1'']"
  have p: "get_all_t_n_pairs ?w [''/data/r.tar.gz''] = Inr [((ustr ''T2'', ustr ''N1''), ''/data/r.tar.gz'')]"
    by (simp add: get_all_t_n_pairs_def members_world_def pair_of_archive_def wgs_match_def
        match_group2_def at_end_def line_break_def is_name_char_def is_word_char_def ascii_alnum_def)
  have t: "get_sample_names_bas_file_dict ?w [''/data/T1.bam.bas''] = Inr [(ustr ''T1'', ''/data/T1.bam.bas'')]"
    by (simp add: get_sample_names_bas_file_dict_def members_world_def base_world_def)
  have n: "get_sample_names_bas_file_dict ?w [''/data/N1.bam.bas''] = Inr [(ustr ''N1'', ''/data/N1.bam.bas'')]"
    by (simp add: get_sample_names_bas_file_dict_def members_world_def base_world_def)
  show ?thesis
    using reconciler_missing_samples[OF p t n, of OUTPUT_HEADER "[]" base_args
        "PyInt 3137454505" "''/data/out.tar.gz''"]
    by simp
qed

text \<open>
  The claim as written, for each role on its own, fails. When a tumour and a normal are
  both missing, the error names the tumour only: the missing normal \<open>N2\<close> is not in its
  list. And when only a normal is missing, the reconciler fails although \<open>E - P\<close> of the
  tumour role is empty.
\<close>

theorem both_roles_missing_counterexample:
  "get_validated_tn_pair_and_bas_lists (members_world [ustr ''WGS_T2_vs_N2''])
     [''/data/T1.bam.bas''] [''/data/N1.bam.bas''] [''/data/r.tar.gz''] =
     Inl (MissingTumourBas [ustr ''T2'']) \<and>
   sorted_missing [ustr ''N2''] [ustr ''N1''] = [ustr ''N2''] \<and>
   get_validated_tn_pair_and_bas_lists (members_world [ustr ''WGS_T1_vs_N2''])
     [''/data/T1.bam.bas''] [''/data/N1.bam.bas''] [''/data/r.tar.gz''] =
     Inl (MissingNormalBas [ustr ''N2'']) \<and>
   sorted_missing [ustr ''T1''] [ustr ''T1''] = []"
  by (simp add: get_validated_tn_pair_and_bas_lists_def get_all_t_n_pairs_def pair_of_archive_def
      members_world_def base_world_def wgs_match_def match_group2_def at_end_def is_name_char_def
      is_word_char_def ascii_alnum_def line_break_def get_sample_names_bas_file_dict_def sorted_missing_def)

section \<open>The file locators\<close>

lemma tar_name_no_stem: "stem \<noteq> [] \<Longrightarrow> \<not> tar_name_match (stem @ ''.tar.gz'')"
  by (simp add: tar_name_match_def strip_final_newline_def newline_def)

lemma isdir_exists: "isdir w d \<Longrightarrow> path_exists w d"
  by (simp add: isdir_def path_exists_def)

text \<open>
  Claim C9. The archive filter matches its pattern at the start of the bare entry name,
  so a name \<^verbatim>\<open><stem>.tar.gz\<close> with a non-empty stem is never among the entries kept from
  a directory; a directory whose entries all have such names contributes no archive and
  raises no error, and the result for the input list is that of the other paths.
\<close>

theorem conventional_tar_names_never_listed:
  assumes "isdir w d" and "fs_listdir w d = Some entries"
  shows "(\<exists>found. tars_of_path w d = Inr (map (abs_path w) found) \<and> set found \<subseteq> set entries \<and>
            (\<forall>stem. stem \<noteq> [] \<longrightarrow> stem @ ''.tar.gz'' \<notin> set found)) \<and>
         ((\<forall>e\<in>set entries. \<exists>stem. stem \<noteq> [] \<and> e = stem @ ''.tar.gz'') \<longrightarrow>
            tars_of_path w d = Inr [] \<and>
            get_all_variant_call_tar w (d # ps) = get_all_variant_call_tar w ps)"
proof -
  let ?found = "filter (\<lambda>a_file. \<not> isdir w a_file \<and> tar_name_match a_file) entries"
  have t: "tars_of_path w d = Inr (map (abs_path w) ?found)"
    using assms isdir_exists[OF assms(1)]
    by (simp add: tars_of_path_def check_file_exists_def tars_of_entries_def)
  have n: "\<forall>stem. stem \<noteq> [] \<longrightarrow> stem @ ''.tar.gz'' \<notin> set ?found"
    using tar_name_no_stem by auto
  have a: "\<exists>found. tars_of_path w d = Inr (map (abs_path w) found) \<and> set found \<subseteq> set entries \<and>
            (\<forall>stem. stem \<noteq> [] \<longrightarrow> stem @ ''.tar.gz'' \<notin> set found)"
    using t n by (intro exI[of _ ?found]) auto
  have b: "(\<forall>e\<in>set entries. \<exists>stem. stem \<noteq> [] \<and> e = stem @ ''.tar.gz'') \<longrightarrow>
            tars_of_path w d = Inr [] \<and>
            get_all_variant_call_tar w (d # ps) = get_all_variant_call_tar w ps"
  proof
    assume h: "\<forall>e\<in>set entries. \<exists>stem. stem \<noteq> [] \<and> e = stem @ ''.tar.gz''"
    have "\<not> tar_name_match x" if "x \<in> set entries" for x
    proof -
      from h that obtain stem where "stem \<noteq> []" "x = stem @ ''.tar.gz''" by blast
      then show ?thesis by (simp only: tar_name_no_stem not_False_eq_True)
    qed
    then have "?found = []"
      unfolding filter_empty_conv by simp
    then have e: "tars_of_path w d = Inr []" using t by simp
    then show "tars_of_path w d = Inr [] \<and>
            get_all_variant_call_tar w (d # ps) = get_all_variant_call_tar w ps"
      by (simp split: sum.splits)
  qed
  from a b show ?thesis by (intro conjI)
qed

theorem conventional_tar_names_never_listed_witness:
  "tars_of_path tar_dir_world ''/tars'' = Inr [] \<and>
   get_all_variant_call_tar tar_dir_world [''/tars'', ''/data/r.tar.gz''] =
     get_all_variant_call_tar tar_dir_world [''/data/r.tar.gz'']"
proof -
  have d: "isdir tar_dir_world ''/tars''"
    by (simp add: isdir_def tar_dir_world_def)
  have l: "fs_listdir tar_dir_world ''/tars'' = Some [''sample.tar.gz'', ''other.tar.gz'']"
    by (simp add: tar_dir_world_def)
  have "''sample.tar.gz'' = ''sample'' @ ''.tar.gz''" "''other.tar.gz'' = ''other'' @ ''.tar.gz''"
    by simp_all
  then have c: "\<forall>e\<in>set [''sample.tar.gz'', ''other.tar.gz'']. \<exists>stem. stem \<noteq> [] \<and> e = stem @ ''.tar.gz''"
    by (metis list.distinct(1) list.set_cases set_ConsD empty_iff empty_set)
  show ?thesis
    using conventional_tar_names_never_listed[OF d l, of "[''/data/r.tar.gz'']"] c by blast
qed

text \<open>
  A directory none of whose entry names matches the statistics pattern gives the empty
  list: that part of the specification's boundary case holds.
\<close>

lemma unmatched_entries_give_nothing:
  assumes "isdir w d" and "fs_listdir w d = Some entries"
    and "list_all (\<lambda>e. \<not> bas_name_match e) entries"
  shows "bas_of_path w d = Inr []"
proof -
  have "bas_of_entries w entries = Inr []"
    using assms(3) by (induction entries) simp_all
  then show ?thesis
    using assms(1,2) isdir_exists[OF assms(1)]
    by (simp add: bas_of_path_def check_file_exists_def)
qed

text \<open>
  Claim C8 says that an input directory holding only subdirectories and files that do not
  match the pattern gives an empty list without error, and that subdirectories are
  skipped. The loop asks \<^verbatim>\<open>os.path.isdir\<close> for the bare entry name, which the operating
  system resolves against the working directory, not against the input directory. For the
  directory \<^verbatim>\<open>/in\<close> with the single subdirectory \<^verbatim>\<open>sub.bam.bas\<close> the entry is not
  skipped: it is validated and listed as a statistics file of the working directory, or
  the validation fails, as the collaborator decides.
\<close>

theorem subdirectory_is_not_skipped:
  "get_all_bas subdir_world [''/in''] = Inr [''/cwd/sub.bam.bas''] \<and>
   get_all_bas (subdir_world\<lparr>bas_ok := (\<lambda>p. False)\<rparr>) [''/in''] = Inl (InvalidBas ''sub.bam.bas'') \<and>
   isdir subdir_world ''/in/sub.bam.bas''"
  by (simp add: subdir_world_def base_world_def bas_of_path_def check_file_exists_def
      path_exists_def isdir_def bas_name_match_def strip_final_newline_def newline_def)

section \<open>The output pre-flight\<close>

text \<open>
  Claim C6 says that a failing test write raises the output-not-writable error. When
  \<^verbatim>\<open>open\<close> itself fails, no file is created; the \<^verbatim>\<open>except\<close> clause raises the
  \<^verbatim>\<open>RuntimeError\<close>, then the \<^verbatim>\<open>finally\<close> clause calls \<^verbatim>\<open>os.remove\<close> on the path that is
  not there, and its \<^verbatim>\<open>FileNotFoundError\<close> replaces the error in flight. No input is
  read.
\<close>

theorem unwritable_output_error_is_masked:
  "outcome (extract_from_sanger unwritable_world OUTPUT_HEADER base_args) =
     Inl (FileNotFoundError ''/data/out.tar.gz'') \<and>
   steps (extract_from_sanger unwritable_world OUTPUT_HEADER base_args) =
     [OpenOutput ''/data/out.tar.gz'', RemoveOutput ''/data/out.tar.gz'']"
  by (simp add: extract_from_sanger_def check_args_def getattr_ns_def base_args_def
      unwritable_world_def base_world_def preflight_def path_exists_def aborted_def)

section \<open>The command line and the core\<close>

lemma dict_set_keys: "fst ` set (dict_set d k v) = insert k (fst ` set d)"
  by (induction d k v rule: dict_set.induct) auto

lemma declared_dest:
  assumes "find_action a =
             Some (flags, dest, act, req)"
  shows "dest \<in> set parser_dests"
proof -
  have "(flags, dest, act, req) \<in> set declared_arguments"
    using assms unfolding find_action_def by (auto simp: find_Some_iff in_set_conv_nth)
  then show ?thesis unfolding parser_dests_def by force
qed

lemma consume_keys:
  assumes "consume py_int argv ns seen extras = Inr (ns', seen', extras')"
  shows "fst ` set ns' \<subseteq> fst ` set ns \<union> set parser_dests"
  using assms
proof (induction py_int argv ns seen extras rule: consume.induct)
  case (1 py_int ns seen extras)
  then show ?case by auto
next
  case (2 py_int a ns seen extras)
  show ?case
  proof (cases "find_action a")
    case None
    with 2 show ?thesis by simp
  next
    case (Some spec)
    obtain flags dest act req where spec: "spec = (flags, dest, act, req)" by (cases spec)
    note f = Some[unfolded spec]
    have d: "dest \<in> set parser_dests"
      by (rule declared_dest[OF f])
    show ?thesis
    proof (cases act)
      case StoreTrue
      with 2 f have "ns' = dict_set ns dest (PyBool True)" by simp
      then have "fst ` set ns' = insert dest (fst ` set ns)" by (simp only: dict_set_keys)
      with d show ?thesis by simp
    qed (use 2 f in simp_all)
  qed
next
  case (3 py_int a v rest ns seen extras)
  note prem = "3.prems"
  show ?case
  proof (cases "find_action a")
    case None
    with prem have c: "consume py_int (v # rest) ns seen True = Inr (ns', seen', extras')"
      by simp
    show ?thesis by (rule "3.IH"(1)[OF None c])
  next
    case (Some spec)
    obtain flags dest act req where spec: "spec = (flags, dest, act, req)" by (cases spec)
    note f = Some[unfolded spec]
    have d: "dest \<in> set parser_dests"
      by (rule declared_dest[OF f])
    show ?thesis
    proof (cases act)
      case Store
      with prem f have o: "\<not> find_action v \<noteq> None"
        and c: "consume py_int rest (dict_set ns dest (PyStr v)) (dest # seen) extras =
                  Inr (ns', seen', extras')"
        by (auto split: if_splits)
      from "3.IH"(2)[OF f refl refl refl Store o c] d show ?thesis
        unfolding dict_set_keys by auto
    next
      case StoreInt
      with prem f obtain n where o: "\<not> find_action v \<noteq> None" and n: "py_int v = Some n"
        and c: "consume py_int rest (dict_set ns dest (PyInt n)) (dest # seen) extras =
                  Inr (ns', seen', extras')"
        by (auto split: if_splits option.splits)
      from "3.IH"(3)[OF f refl refl refl StoreInt o n c] d show ?thesis
        unfolding dict_set_keys by auto
    next
      case StoreTrue
      with prem f have
        c: "consume py_int (v # rest) (dict_set ns dest (PyBool True)) (dest # seen) extras =
              Inr (ns', seen', extras')"
        by auto
      from "3.IH"(4)[OF f refl refl refl StoreTrue c] d show ?thesis
        unfolding dict_set_keys by auto
    next
      case PrintAndExit
      with prem f show ?thesis by simp
    qed
  qed
qed

text \<open>
  Claim C2 says that the argument object of every successfully parsed invocation carries
  the metadata and variant-count fields that the core reads. The parser of \<^verbatim>\<open>main\<close>
  declares neither: whatever the command line, a successful parse gives a namespace on
  which \<^verbatim>\<open>args.metadata\<close> and \<^verbatim>\<open>args.count_variants\<close> raise \<^verbatim>\<open>AttributeError\<close>.
\<close>

theorem parsed_arguments_lack_core_fields:
  assumes "parse_args py_int argv = Inr args"
  shows "getattr_ns args ''metadata'' = Inl (AttributeError ''metadata'') \<and>
         getattr_ns args ''count_variants'' = Inl (AttributeError ''count_variants'')"
proof -
  obtain seen extras where
    c: "consume py_int argv initial_namespace [] False = Inr (args, seen, extras)"
    using assms by (auto simp: parse_args_def split: sum.splits if_splits)
  have k: "fst ` set args \<subseteq> fst ` set initial_namespace \<union>
           set parser_dests"
    by (rule consume_keys[OF c])
  have "''metadata'' \<notin> fst ` set args" "''count_variants'' \<notin> fst ` set args"
    using k by (auto simp: initial_namespace_def parser_dests_def declared_arguments_def)
  then have "map_of args ''metadata'' = None" "map_of args ''count_variants'' = None"
    by (simp_all add: map_of_eq_None_iff)
  then show ?thesis by (simp add: getattr_ns_def)
qed

theorem parsed_arguments_lack_core_fields_witness:
  "parse_args (\<lambda>s. None) example_argv =
     Inr [(''tumour_bas'', PyStr ''t.bam.bas''), (''normal_bas'', PyStr ''n.bam.bas''),
          (''variant_call_tar'', PyStr ''r.tar.gz''), (''output_tar'', PyStr ''out.tar.gz''),
          (''genome_size'', PyInt 3137454505), (''debug'', PyBool False),
          (''func'', PyFunc ''extract_from_sanger'')] \<and>
   getattr_ns [(''tumour_bas'', PyStr ''t.bam.bas''), (''normal_bas'', PyStr ''n.bam.bas''),
          (''variant_call_tar'', PyStr ''r.tar.gz''), (''output_tar'', PyStr ''out.tar.gz''),
          (''genome_size'', PyInt 3137454505), (''debug'', PyBool False),
          (''func'', PyFunc ''extract_from_sanger'')] ''metadata'' = Inl (AttributeError ''metadata'')"
proof -
  have p: "parse_args (\<lambda>s. None) example_argv =
     Inr [(''tumour_bas'', PyStr ''t.bam.bas''), (''normal_bas'', PyStr ''n.bam.bas''),
          (''variant_call_tar'', PyStr ''r.tar.gz''), (''output_tar'', PyStr ''out.tar.gz''),
          (''genome_size'', PyInt 3137454505), (''debug'', PyBool False),
          (''func'', PyFunc ''extract_from_sanger'')]"
    by (simp add: parse_args_def example_argv_def initial_namespace_def declared_arguments_def
        find_action_def required_dests_def modelled_argument_def)
  show ?thesis using parsed_arguments_lack_core_fields[OF p] p by simp
qed

section \<open>The report\<close>


lemma write_rows_Nil:
  "write_rows w meta t_name_bas n_name_bas genome_size count_variants [] = (Inr [], [])"
  by simp

lemma report_opened:
  assumes "report_lines (extract_from_sanger w hdr args) = Some ls"
  shows "\<exists>genome_size output_tar tumour_bas normal_bas tars pairs t_name_bas n_name_bas meta
            count_variants.
           check_args w args = Inr (genome_size, output_tar) \<and>
           locate_inputs w args = Inr (tumour_bas, normal_bas, tars) \<and>
           get_validated_tn_pair_and_bas_lists w tumour_bas normal_bas tars =
             Inr (pairs, t_name_bas, n_name_bas) \<and>
           resolve_metadata w args pairs = Inr meta \<and>
           getattr_ns args ''count_variants'' = Inr count_variants \<and>
           extract_from_sanger w hdr args =
             write_report w hdr (snd (preflight w output_tar) @ [ReadInputs]) output_tar genome_size
               count_variants meta pairs t_name_bas n_name_bas"
  using assms
  by (auto simp: extract_from_sanger_def reconcile_and_write_def aborted_def
      split: sum.splits prod.splits)

lemma write_report_header:
  "header_after (write_report w hdr sofar output_tar genome_size count_variants meta pairs
      t_name_bas n_name_bas) =
     (if truthy count_variants then hdr @ VARIANT_COUNT_HEADER else hdr)"
  "\<exists>rows. report_lines (write_report w hdr sofar output_tar genome_size count_variants meta pairs
      t_name_bas n_name_bas) =
     Some (py_join tab (if truthy count_variants then hdr @ VARIANT_COUNT_HEADER else hdr) # rows)"
  by (auto simp: write_report_def Let_def split: sum.splits)




lemma header_of_opened_report:
  assumes "report_lines (extract_from_sanger w hdr args) = Some ls"
    and "getattr_ns args ''count_variants'' = Inr count_variants"
  shows "header_after (extract_from_sanger w hdr args) =
           (if truthy count_variants then hdr @ VARIANT_COUNT_HEADER else hdr)"
    and "hd ls = py_join tab (if truthy count_variants then hdr @ VARIANT_COUNT_HEADER else hdr)"
proof -
  from report_opened[OF assms(1)] assms(2)
  obtain genome_size output_tar meta pairs t_name_bas n_name_bas
    where e: "extract_from_sanger w hdr args =
             write_report w hdr (snd (preflight w output_tar) @ [ReadInputs]) output_tar genome_size
               count_variants meta pairs t_name_bas n_name_bas"
    by auto
  show "header_after (extract_from_sanger w hdr args) =
           (if truthy count_variants then hdr @ VARIANT_COUNT_HEADER else hdr)"
    unfolding e by (rule write_report_header(1))
  obtain rows where "report_lines (extract_from_sanger w hdr args) =
      Some (py_join tab (if truthy count_variants then hdr @ VARIANT_COUNT_HEADER else hdr) # rows)"
    unfolding e using write_report_header(2) by blast
  with assms(1) have "ls =
      py_join tab (if truthy count_variants then hdr @ VARIANT_COUNT_HEADER else hdr) # rows"
    by simp
  then show "hd ls =
      py_join tab (if truthy count_variants then hdr @ VARIANT_COUNT_HEADER else hdr)"
    by (simp only: list.sel)
qed

lemma length_OUTPUT_HEADER: "length OUTPUT_HEADER = 54"
  by (simp add: OUTPUT_HEADER_def)

lemma empty_cohort_run:
  "extract_from_sanger base_world hdr empty_cohort_args =
      \<lparr>outcome = Inr (), header_after = hdr @ VARIANT_COUNT_HEADER,
       steps = [OpenOutput ''/data/out.tar.gz'', RemoveOutput ''/data/out.tar.gz'', ReadInputs,
                OpenReport, PackOutput ''/data/out.tar.gz''],
       report_lines = Some [py_join tab (hdr @ VARIANT_COUNT_HEADER)],
       final_archive = Some ([py_join tab (hdr @ VARIANT_COUNT_HEADER)], [])\<rparr>"
  by (simp add: extract_from_sanger_def check_args_def getattr_ns_def empty_cohort_args_def
      base_world_def preflight_def path_exists_def locate_inputs_def
      reconcile_and_write_def get_validated_tn_pair_and_bas_lists_def get_all_t_n_pairs_def
      get_sample_names_bas_file_dict_def sorted_missing_def resolve_metadata_def
      write_report_def Let_def)







text \<open>
  Claim C10, with the size of the base schema as the module has it: 54 names. When the
  report is opened with variant counting on, the four variant-count names are appended to
  the module's list itself. After a first such run the list is the base schema followed
  by the four names, and a second such run in the same process writes a header with the
  four names twice (and leaves them twice in the list).
\<close>

theorem header_grows_across_runs:
  assumes "getattr_ns args1 ''count_variants'' = Inr cv1" and "truthy cv1"
    and "getattr_ns args2 ''count_variants'' = Inr cv2" and "truthy cv2"
    and "report_lines (extract_from_sanger w1 OUTPUT_HEADER args1) = Some ls1"
    and "report_lines (extract_from_sanger w2
           (header_after (extract_from_sanger w1 OUTPUT_HEADER args1)) args2) = Some ls2"
  shows "length OUTPUT_HEADER = 54 \<and>
         header_after (extract_from_sanger w1 OUTPUT_HEADER args1) =
           OUTPUT_HEADER @ VARIANT_COUNT_HEADER \<and>
         header_after (extract_from_sanger w1 OUTPUT_HEADER args1) \<noteq> OUTPUT_HEADER \<and>
         hd ls1 = py_join tab (OUTPUT_HEADER @ VARIANT_COUNT_HEADER) \<and>
         hd ls2 = py_join tab (OUTPUT_HEADER @ VARIANT_COUNT_HEADER @ VARIANT_COUNT_HEADER) \<and>
         header_after (extract_from_sanger w2
           (header_after (extract_from_sanger w1 OUTPUT_HEADER args1)) args2) =
           OUTPUT_HEADER @ VARIANT_COUNT_HEADER @ VARIANT_COUNT_HEADER"
proof -
  have h1: "header_after (extract_from_sanger w1 OUTPUT_HEADER args1) =
      OUTPUT_HEADER @ VARIANT_COUNT_HEADER"
    using header_of_opened_report(1)[OF assms(5) assms(1)] assms(2) by simp
  have l1: "hd ls1 = py_join tab (OUTPUT_HEADER @ VARIANT_COUNT_HEADER)"
    using header_of_opened_report(2)[OF assms(5) assms(1)] assms(2) by simp
  have n1: "header_after (extract_from_sanger w1 OUTPUT_HEADER args1) \<noteq> OUTPUT_HEADER"
    unfolding h1 by (simp add: VARIANT_COUNT_HEADER_def)
  note second = assms(6)[unfolded h1]
  have l2: "hd ls2 = py_join tab (OUTPUT_HEADER @ VARIANT_COUNT_HEADER @ VARIANT_COUNT_HEADER)"
    using header_of_opened_report(2)[OF second assms(3)] assms(4) by simp
  have h2: "header_after (extract_from_sanger w2
           (header_after (extract_from_sanger w1 OUTPUT_HEADER args1)) args2) =
           OUTPUT_HEADER @ VARIANT_COUNT_HEADER @ VARIANT_COUNT_HEADER"
    unfolding h1 using header_of_opened_report(1)[OF second assms(3)] assms(4) by simp
  from length_OUTPUT_HEADER h1 n1 l1 l2 h2 show ?thesis by (intro conjI)
qed

theorem header_grows_across_runs_witness:
  "header_after (extract_from_sanger base_world OUTPUT_HEADER empty_cohort_args) =
     OUTPUT_HEADER @ VARIANT_COUNT_HEADER \<and>
   header_after (extract_from_sanger base_world OUTPUT_HEADER empty_cohort_args) \<noteq> OUTPUT_HEADER \<and>
   report_lines (extract_from_sanger base_world
      (header_after (extract_from_sanger base_world OUTPUT_HEADER empty_cohort_args))
      empty_cohort_args) =
     Some [py_join tab (OUTPUT_HEADER @ VARIANT_COUNT_HEADER @ VARIANT_COUNT_HEADER)]"
proof -
  have g: "getattr_ns empty_cohort_args ''count_variants'' = Inr (PyBool True)"
    by (simp add: getattr_ns_def empty_cohort_args_def)
  have t: "truthy (PyBool True)" by simp
  have r1: "report_lines (extract_from_sanger base_world OUTPUT_HEADER empty_cohort_args) =
      Some [py_join tab (OUTPUT_HEADER @ VARIANT_COUNT_HEADER)]"
    unfolding empty_cohort_run by simp
  have r2: "report_lines (extract_from_sanger base_world
      (header_after (extract_from_sanger base_world OUTPUT_HEADER empty_cohort_args))
      empty_cohort_args) =
      Some [py_join tab (OUTPUT_HEADER @ VARIANT_COUNT_HEADER @ VARIANT_COUNT_HEADER)]"
    unfolding empty_cohort_run by simp
  note h = header_grows_across_runs[OF g t g t r1 r2]
  have a: "header_after (extract_from_sanger base_world OUTPUT_HEADER empty_cohort_args) =
     OUTPUT_HEADER @ VARIANT_COUNT_HEADER"
    using h by (elim conjE)
  have b: "header_after (extract_from_sanger base_world OUTPUT_HEADER empty_cohort_args) \<noteq>
     OUTPUT_HEADER"
    using h by (elim conjE)
  from a b r2 show ?thesis by (intro conjI)
qed

text \<open>The base schema of the module has 54 names, not 53.\<close>

theorem base_schema_size_counterexample: "length OUTPUT_HEADER \<noteq> 53"
  by (simp add: OUTPUT_HEADER_def)

section \<open>What holds of the pre-flight\<close>

text \<open>
  For a run whose debug flag, genome size and output name pass the first checks, the
  pre-flight decides before any input is read. An output path that exists ends the run
  with the existing-output error and no file-system step. Otherwise the placeholder is
  opened and then removed, whatever the opening did: when the removal raises, the run
  ends with the error of the removal; when it does not and the placeholder could not be
  written, the run ends with the output-not-writable error.
\<close>

theorem preflight_precedes_inputs:
  assumes "check_args w args = Inr (genome_size, output_tar)"
  shows "(path_exists w output_tar \<longrightarrow>
            extract_from_sanger w hdr args =
              \<lparr>outcome = Inl (OutputExists output_tar), header_after = hdr, steps = [],
               report_lines = None, final_archive = None\<rparr>) \<and>
         (\<forall>e. \<not> path_exists w output_tar \<and> fs_remove w output_tar = Some e \<longrightarrow>
            extract_from_sanger w hdr args =
              \<lparr>outcome = Inl e, header_after = hdr,
               steps = [OpenOutput output_tar, RemoveOutput output_tar],
               report_lines = None, final_archive = None\<rparr>) \<and>
         (\<not> path_exists w output_tar \<and> fs_remove w output_tar = None \<and>
          fs_open_w w output_tar \<noteq> WriteOk \<longrightarrow>
            extract_from_sanger w hdr args =
              \<lparr>outcome = Inl (OutputNotWritable output_tar), header_after = hdr,
               steps = [OpenOutput output_tar, RemoveOutput output_tar],
               report_lines = None, final_archive = None\<rparr>)"
  using assms
  by (simp add: extract_from_sanger_def preflight_def aborted_def Let_def)

theorem preflight_precedes_inputs_witness:
  "extract_from_sanger occupied_world OUTPUT_HEADER base_args =
     \<lparr>outcome = Inl (OutputExists ''/data/out.tar.gz''), header_after = OUTPUT_HEADER, steps = [],
      report_lines = None, final_archive = None\<rparr>"
proof -
  have c: "check_args occupied_world base_args = Inr (PyInt 3137454505, ''/data/out.tar.gz'')"
    by (simp add: check_args_def getattr_ns_def base_args_def occupied_world_def base_world_def)
  have p: "path_exists occupied_world ''/data/out.tar.gz''"
    by (simp add: path_exists_def occupied_world_def)
  show ?thesis using preflight_precedes_inputs[OF c, of OUTPUT_HEADER] p by simp
qed

end
